theory Spec2Isabelle
  imports Complex_Main
begin

section \<open>HTTP outcomes and request values\<close>

text \<open>
  Every route of \<^verbatim>\<open>routes/gadgets.js\<close> and \<^verbatim>\<open>routes/auth.js\<close> answers either with a
  success payload or with \<^verbatim>\<open>res.status(code).json({ error })\<close>. The error answers are the
  constructors of \<open>error\<close>; \<open>http_status\<close> gives the status code the route sends.
\<close>

datatype error = Unauthenticated | BadRequest | Forbidden | NotFound | InternalError

fun http_status :: "error \<Rightarrow> nat" where
  "http_status Unauthenticated = 401"
| "http_status BadRequest = 400"
| "http_status Forbidden = 403"
| "http_status NotFound = 404"
| "http_status InternalError = 500"

text \<open>
  A value read from a JSON request body (\<^verbatim>\<open>req.body.confirmationCode\<close>): absent
  (\<^verbatim>\<open>undefined\<close>), \<^verbatim>\<open>null\<close>, a boolean, a number or a string. Arrays and objects behave
  like the non-string cases wherever a value is used here, namely under \<^verbatim>\<open>!==\<close> against a
  stored value.
\<close>

datatype jsvalue = JUndefined | JNull | JBoolean bool | JNumber real | JString string

text \<open>
  An entry of the object handed to the ORM's \<^verbatim>\<open>update\<close>: the key is absent, or present
  with \<^verbatim>\<open>null\<close>, or present with a value of the attribute's type.
\<close>

datatype 'a entry = Absent | Null | Value 'a

text \<open>A \<^verbatim>\<open>Date\<close> is its number of milliseconds since the epoch.\<close>

type_synonym date = int

section \<open>Numbers\<close>

text \<open>
  A JavaScript Number is a binary64 value. The routes only compute with finite
  non-negative ones, written here as \<open>significand * 2 ^ exponent\<close>. \<^verbatim>\<open>Math.random()\<close> is a
  parameter of the routes that draw: \<open>random_ok\<close> says that the value is a binary64 number
  at least 0 and less than 1.
\<close>

record double =
  significand :: nat
  exponent :: int

definition random_ok :: "double \<Rightarrow> bool" where
  "random_ok x \<longleftrightarrow>
     significand x < 2 ^ 53 \<and> - 1074 \<le> exponent x \<and> exponent x < 0 \<and>
     significand x < 2 ^ nat (- exponent x)"

fun bit_length :: "nat \<Rightarrow> nat" where
  "bit_length n = (if n = 0 then 0 else Suc (bit_length (n div 2)))"

declare bit_length.simps [simp del]

text \<open>\<open>m / 2 ^ d\<close> rounded to the nearest integer, a tie to the even one.\<close>

definition round_even :: "nat \<Rightarrow> nat \<Rightarrow> nat" where
  "round_even m d =
     (let q = m div 2 ^ d; r = m mod 2 ^ d; half = 2 ^ (d - 1)
      in if r < half then q
         else if half < r then q + 1
         else if even q then q else q + 1)"

text \<open>
  The product \<^verbatim>\<open>x * c\<close> of a Number with an integer constant (\<^verbatim>\<open>90000\<close>,
  \<^verbatim>\<open>nouns.length\<close>): the exact product, rounded to 53 significant bits when it has more.
\<close>

definition multiply :: "double \<Rightarrow> nat \<Rightarrow> double" where
  "multiply x c =
     (let m = significand x * c; excess = bit_length m - 53
      in if excess = 0 then \<lparr>significand = m, exponent = exponent x\<rparr>
         else \<lparr>significand = round_even m excess, exponent = exponent x + int excess\<rparr>)"

definition Math_floor :: "double \<Rightarrow> int" where
  "Math_floor x =
     (if 0 \<le> exponent x then int (significand x * 2 ^ nat (exponent x))
      else int (significand x div 2 ^ nat (- exponent x)))"

text \<open>\<open>toString\<close> is the decimal rendering of an integer by \<^verbatim>\<open>Number.prototype.toString\<close>.\<close>

definition digit :: "nat \<Rightarrow> char" where
  "digit d = ''0123456789'' ! d"

fun toString_nat :: "nat \<Rightarrow> string" where
  "toString_nat n =
     (if n < 10 then [digit n] else toString_nat (n div 10) @ [digit (n mod 10)])"

declare toString_nat.simps [simp del]

definition toString :: "int \<Rightarrow> string" where
  "toString n = (if n < 0 then CHR ''-'' # toString_nat (nat (- n)) else toString_nat (nat n))"

section \<open>Gadget ids\<close>

text \<open>
  The \<^verbatim>\<open>id\<close> column is a UUID of the database (PostgreSQL). A route receives its \<^verbatim>\<open>:id\<close>
  as any text; the database reads the text when the ORM queries by primary key.
  \<open>uuid_in\<close> is that reading: 32 hexadecimal digits in either case, optionally inside
  braces, with an optional hyphen after any group of four digits; the result is the
  UUID in the one form the database prints, which is also the form of a stored id. Any
  other text is a syntax error of the query.
\<close>

type_synonym uuid = string

definition isxdigit :: "char \<Rightarrow> bool" where
  "isxdigit c \<longleftrightarrow> c \<in> set ''0123456789abcdefABCDEF''"

definition lower_hex :: "char \<Rightarrow> char" where
  "lower_hex c =
     (if c = CHR ''A'' then CHR ''a'' else if c = CHR ''B'' then CHR ''b''
      else if c = CHR ''C'' then CHR ''c'' else if c = CHR ''D'' then CHR ''d''
      else if c = CHR ''E'' then CHR ''e'' else if c = CHR ''F'' then CHR ''f'' else c)"

text \<open>\<open>uuid_bytes i src\<close> reads the bytes \<open>i\<close> to 15 from \<open>src\<close>, two digits each, and returns
  their digits with the rest of the text; a hyphen may follow a byte of odd index other
  than the last.\<close>

fun uuid_bytes :: "nat \<Rightarrow> string \<Rightarrow> (string \<times> string) option" where
  "uuid_bytes i src =
     (if 16 \<le> i then Some ([], src)
      else case src of
             a # b # rest \<Rightarrow>
               if isxdigit a \<and> isxdigit b
               then (case uuid_bytes (i + 1)
                            (if take 1 rest = ''-'' \<and> odd i \<and> i < 15 then tl rest else rest) of
                       None \<Rightarrow> None
                     | Some (digits, rest') \<Rightarrow> Some (lower_hex a # lower_hex b # digits, rest'))
               else None
           | _ \<Rightarrow> None)"

declare uuid_bytes.simps [simp del]

definition uuid_out :: "string \<Rightarrow> uuid" where
  "uuid_out digits =
     take 8 digits @ ''-'' @ take 4 (drop 8 digits) @ ''-'' @ take 4 (drop 12 digits) @ ''-'' @
     take 4 (drop 16 digits) @ ''-'' @ drop 20 digits"

definition uuid_in :: "string \<Rightarrow> uuid option" where
  "uuid_in src =
     (let braces = (take 1 src = ''{'')
      in case uuid_bytes 0 (if braces then tl src else src) of
           None \<Rightarrow> None
         | Some (digits, rest) \<Rightarrow>
             if rest = (if braces then ''}'' else []) then Some (uuid_out digits) else None)"

section \<open>The Gadget model\<close>

text \<open>
  The attributes are those of \<^verbatim>\<open>Gadget.init\<close> and of the migration that creates the table:
  \<^verbatim>\<open>id\<close> (primary key, a UUID), \<^verbatim>\<open>name\<close> (not null, unique), \<^verbatim>\<open>status\<close> (an ENUM, not
  null), \<^verbatim>\<open>decommissionedAt\<close> (nullable), and the two timestamp columns the ORM maintains.
\<close>

datatype status = Available | Deployed | Destroyed | Decommissioned

record gadget =
  gadget_id :: uuid
  name :: string
  status :: status
  decommissionedAt :: "date option"
  createdAt :: date
  updatedAt :: date

text \<open>\<^verbatim>\<open>DataTypes.ENUM('Available', 'Deployed', 'Destroyed', 'Decommissioned')\<close>: the texts
  the column accepts.\<close>

definition ENUM :: "string \<Rightarrow> status option" where
  "ENUM txt =
     (if txt = ''Available'' then Some Available
      else if txt = ''Deployed'' then Some Deployed
      else if txt = ''Destroyed'' then Some Destroyed
      else if txt = ''Decommissioned'' then Some Decommissioned
      else None)"

text \<open>
  The \<^verbatim>\<open>beforeUpdate\<close> hook. \<open>now\<close> is what \<^verbatim>\<open>new Date()\<close> reads; a \<^verbatim>\<open>Date\<close> object is
  always truthy, so \<^verbatim>\<open>!gadget.decommissionedAt\<close> holds exactly for \<^verbatim>\<open>null\<close>.
\<close>

definition beforeUpdate :: "date \<Rightarrow> gadget \<Rightarrow> gadget" where
  "beforeUpdate now gadget =
     (if status gadget = Decommissioned \<and> decommissionedAt gadget = None
      then gadget\<lparr>decommissionedAt := Some now\<rparr>
      else if status gadget \<noteq> Decommissioned
      then gadget\<lparr>decommissionedAt := None\<rparr>
      else gadget)"

section \<open>The ORM calls the routes make\<close>

text \<open>
  The table is the list of its rows. The routes reach it through four calls of the ORM
  (Sequelize), modelled by what they do to the table:
  \<^item> \<^verbatim>\<open>Gadget.findByPk(id)\<close> throws when the database cannot read the text as a UUID,
    and otherwise returns the row with that id or \<^verbatim>\<open>null\<close>;
  \<^item> \<^verbatim>\<open>Gadget.findOne({ where: { name } })\<close> returns a row or \<^verbatim>\<open>null\<close>;
  \<^item> \<^verbatim>\<open>Gadget.create\<close> inserts a row, with the defaults of the model, unless the primary
    key or the unique name is already taken;
  \<^item> \<^verbatim>\<open>gadget.update(values)\<close> assigns the attributes named in \<open>values\<close>, runs the
    validation of the model and the \<^verbatim>\<open>beforeUpdate\<close> hook, and writes the row.
  What the model file declares is taken from it: the ENUM, \<^verbatim>\<open>allowNull\<close>, \<^verbatim>\<open>unique\<close> and
  the hook. What the library does by itself is written into \<open>set_values\<close> and
  \<open>Gadget_update\<close>, step by step. One clock reading \<open>now\<close> serves a whole request.
  A call that throws is caught by the route, which answers 400. Failures of the
  database connection are not modelled.
\<close>

datatype orm_error = ValidationError | UniqueConstraintError | DatabaseError

definition find_row :: "gadget list \<Rightarrow> uuid \<Rightarrow> gadget option" where
  "find_row rows u = find (\<lambda>r. gadget_id r = u) rows"

definition findByPk :: "gadget list \<Rightarrow> string \<Rightarrow> orm_error + gadget option" where
  "findByPk rows k =
     (case uuid_in k of
        None \<Rightarrow> Inl DatabaseError
      | Some u \<Rightarrow> Inr (find_row rows u))"

definition findOne_name :: "gadget list \<Rightarrow> string \<Rightarrow> gadget option" where
  "findOne_name rows codename = find (\<lambda>r. name r = codename) rows"

text \<open>\<open>uuid\<close> is the id the ORM generates for the new row (\<^verbatim>\<open>DataTypes.UUIDV4\<close>).\<close>

definition Gadget_create ::
  "string \<Rightarrow> date \<Rightarrow> string \<Rightarrow> status \<Rightarrow> gadget list \<Rightarrow> orm_error + (gadget \<times> gadget list)"
where
  "Gadget_create uuid now nm st rows =
     (case uuid_in uuid of
        None \<Rightarrow> Inl DatabaseError
      | Some u \<Rightarrow>
          (let gadget = \<lparr>gadget_id = u, name = nm, status = st, decommissionedAt = None,
                          createdAt = now, updatedAt = now\<rparr>
           in if \<exists>r \<in> set rows. gadget_id r = u \<or> name r = nm
              then Inl UniqueConstraintError
              else Inr (gadget, rows @ [gadget])))"

text \<open>
  The object passed to \<^verbatim>\<open>gadget.update\<close>. In the PATCH route it is the request body as it
  came, so it may carry an entry for any attribute; entries under other keys are not
  attributes and the ORM drops them.
\<close>

record updates =
  v_id :: "string entry"
  v_name :: "string entry"
  v_status :: "string entry"
  v_decommissionedAt :: "date entry"
  v_createdAt :: "date entry"
  v_updatedAt :: "date entry"

definition no_values :: updates where
  "no_values = \<lparr>v_id = Absent, v_name = Absent, v_status = Absent,
                 v_decommissionedAt = Absent, v_createdAt = Absent, v_updatedAt = Absent\<rparr>"

text \<open>The object has a key that is an attribute of the model.\<close>

definition has_attribute :: "updates \<Rightarrow> bool" where
  "has_attribute vs \<longleftrightarrow>
     v_id vs \<noteq> Absent \<or> v_name vs \<noteq> Absent \<or> v_status vs \<noteq> Absent \<or>
     v_decommissionedAt vs \<noteq> Absent \<or> v_createdAt vs \<noteq> Absent \<or> v_updatedAt vs \<noteq> Absent"

text \<open>\<^verbatim>\<open>allowNull: false\<close> on name and status, and the ENUM of status: values the
  validation or the database refuse.\<close>

definition valid_values :: "updates \<Rightarrow> bool" where
  "valid_values vs \<longleftrightarrow>
     v_name vs \<noteq> Null \<and>
     (case v_status vs of Absent \<Rightarrow> True | Null \<Rightarrow> False | Value txt \<Rightarrow> ENUM txt \<noteq> None)"

text \<open>
  The assignment (\<^verbatim>\<open>set\<close>): name, status and decommissionedAt take the value of their
  entry. The ORM does not assign a primary key that is already set, nor the timestamp
  attributes it maintains itself, so the entries for id, createdAt and updatedAt are
  skipped.
\<close>

definition set_values :: "updates \<Rightarrow> gadget \<Rightarrow> gadget" where
  "set_values vs gadget =
     gadget\<lparr>name := (case v_name vs of Value nm \<Rightarrow> nm | _ \<Rightarrow> name gadget),
            status := (case v_status vs of
                         Value txt \<Rightarrow> (case ENUM txt of Some st \<Rightarrow> st | None \<Rightarrow> status gadget)
                       | _ \<Rightarrow> status gadget),
            decommissionedAt := (case v_decommissionedAt vs of
                                   Absent \<Rightarrow> decommissionedAt gadget
                                 | Null \<Rightarrow> None
                                 | Value d \<Rightarrow> Some d)\<rparr>"

text \<open>The unique index on name: \<open>nm\<close> is the name of a row other than the row \<open>k\<close>.\<close>

definition name_taken :: "gadget list \<Rightarrow> uuid \<Rightarrow> string \<Rightarrow> bool" where
  "name_taken rows k nm \<longleftrightarrow> (\<exists>r \<in> set rows. gadget_id r \<noteq> k \<and> name r = nm)"

text \<open>
  \<^verbatim>\<open>gadget.update(values)\<close> on the instance \<open>gadget\<close>, a row of the table \<open>rows\<close>, in the
  order the library works:
  \<^enum> the values are assigned; an assignment that differs from the value the instance has
    marks the attribute as changed, and the mark stays;
  \<^enum> when the object has a key that is an attribute, \<^verbatim>\<open>updatedAt\<close> of the instance is set
    to the current time and will be among the columns of a write;
  \<^enum> the values are validated and the hook runs; its assignment marks
    \<^verbatim>\<open>decommissionedAt\<close> as changed when it differs from what the instance has then;
  \<^enum> when no attribute is marked, no statement is sent: the row stays, and the instance
    is returned as it is;
  \<^enum> otherwise the row is written from the instance, unless its new name is the name
    of another row.
  The result is the instance, which the PATCH route sends as its answer, and the table.
  \<open>changed\<close> says that an attribute is marked when the hook has run.
\<close>

definition changed :: "date \<Rightarrow> updates \<Rightarrow> gadget \<Rightarrow> bool" where
  "changed now vs gadget \<longleftrightarrow>
     set_values vs gadget \<noteq> gadget \<or>
     beforeUpdate now (set_values vs gadget) \<noteq> set_values vs gadget"

definition Gadget_update ::
  "date \<Rightarrow> updates \<Rightarrow> gadget \<Rightarrow> gadget list \<Rightarrow> orm_error + (gadget \<times> gadget list)"
where
  "Gadget_update now vs gadget rows =
     (if \<not> valid_values vs then Inl ValidationError
      else let hooked = beforeUpdate now (set_values vs gadget);
               instance = (if has_attribute vs then hooked\<lparr>updatedAt := now\<rparr> else hooked)
           in if \<not> changed now vs gadget then Inr (instance, rows)
              else if name instance \<noteq> name gadget \<and>
                      name_taken rows (gadget_id gadget) (name instance)
              then Inl UniqueConstraintError
              else Inr (instance,
                        map (\<lambda>r. if gadget_id r = gadget_id gadget then instance else r) rows))"

section \<open>The pending codes\<close>

text \<open>
  \<^verbatim>\<open>const pendingSelfDestructCodes = {}\<close> is an ordinary object. The map holds its own
  properties. Reading \<^verbatim>\<open>pendingSelfDestructCodes[id]\<close> finds an own property, or else a
  member the object inherits from \<^verbatim>\<open>Object.prototype\<close> (a function, or the prototype
  itself under \<^verbatim>\<open>__proto__\<close>), or else \<^verbatim>\<open>undefined\<close>. An assignment creates or replaces an
  own property, except under \<^verbatim>\<open>__proto__\<close>, where the inherited setter ignores a string;
  \<^verbatim>\<open>delete\<close> removes an own property.
\<close>

definition Object_prototype :: "string list" where
  "Object_prototype =
     [''constructor'', ''__defineGetter__'', ''__defineSetter__'', ''hasOwnProperty'',
      ''__lookupGetter__'', ''__lookupSetter__'', ''isPrototypeOf'',
      ''propertyIsEnumerable'', ''toString'', ''valueOf'', ''__proto__'',
      ''toLocaleString'']"

datatype property = Undefined | Own string | Inherited

definition js_get :: "(string \<rightharpoonup> string) \<Rightarrow> string \<Rightarrow> property" where
  "js_get obj k =
     (case obj k of
        Some v \<Rightarrow> Own v
      | None \<Rightarrow> if k \<in> set Object_prototype then Inherited else Undefined)"

definition js_set :: "(string \<rightharpoonup> string) \<Rightarrow> string \<Rightarrow> string \<Rightarrow> (string \<rightharpoonup> string)" where
  "js_set obj k v = (if k = ''__proto__'' then obj else obj(k \<mapsto> v))"

definition js_delete :: "(string \<rightharpoonup> string) \<Rightarrow> string \<Rightarrow> (string \<rightharpoonup> string)" where
  "js_delete obj k = obj(k := None)"

text \<open>\<^verbatim>\<open>!storedCode\<close> is the negation of \<open>truthy\<close>: the empty string and \<^verbatim>\<open>undefined\<close> are
  falsy, a function or an object is truthy.\<close>

definition truthy :: "property \<Rightarrow> bool" where
  "truthy p = (case p of Undefined \<Rightarrow> False | Own v \<Rightarrow> v \<noteq> [] | Inherited \<Rightarrow> True)"

text \<open>\<^verbatim>\<open>confirmationCode === storedCode\<close>: a value of a JSON body is identical only to a
  string with the same characters.\<close>

definition strict_equal :: "jsvalue \<Rightarrow> property \<Rightarrow> bool" where
  "strict_equal v p = (case p of Own stored \<Rightarrow> v = JString stored | _ \<Rightarrow> False)"

section \<open>The gadget routes\<close>

text \<open>
  The state of the service: the Gadgets table and the own properties of the
  module-level object \<^verbatim>\<open>pendingSelfDestructCodes\<close>. Each route below takes the state and
  the \<^verbatim>\<open>:id\<close> text it was called with, and returns its answer with the state after the
  request. GET /gadgets only reads the table (\<^verbatim>\<open>Gadget.findAll\<close>) and changes neither; it
  is not among them.
\<close>

record api_state =
  gadgets :: "gadget list"
  pendingSelfDestructCodes :: "string \<rightharpoonup> string"

subsection \<open>Random codes and codenames\<close>

definition generateConfirmationCode :: "double \<Rightarrow> string" where
  "generateConfirmationCode random = toString (Math_floor (multiply random 90000) + 10000)"

definition nouns :: "string list" where
  "nouns = [''Nightingale'', ''Kraken'', ''Phantom'', ''Vortex'', ''Specter'',
            ''Maverick'', ''Intruder'', ''Cipher'', ''Operative'', ''Shadow'',
            ''Saboteur'', ''Viper'', ''Agent'', ''Enigma'']"

text \<open>An index outside the array reads \<^verbatim>\<open>undefined\<close>, which the template renders as text.\<close>

definition generateCodename :: "double \<Rightarrow> string" where
  "generateCodename random =
     (let i = Math_floor (multiply random (length nouns));
          noun = (if 0 \<le> i \<and> nat i < length nouns then nouns ! nat i else ''undefined'')
      in ''The '' @ noun)"

text \<open>
  The loop of \<^verbatim>\<open>generateUniqueCodename\<close> draws until \<^verbatim>\<open>findOne\<close> finds no row with the
  codename. \<open>random i\<close> is the \<open>i\<close>-th draw of the call; the loop may draw forever, and
  then the function has no value.
\<close>

partial_function (option) generateUniqueCodename ::
  "gadget list \<Rightarrow> (nat \<Rightarrow> double) \<Rightarrow> nat \<Rightarrow> string option"
where
  "generateUniqueCodename rows random i =
     (let codename = generateCodename (random i)
      in if findOne_name rows codename \<noteq> None
         then generateUniqueCodename rows random (Suc i)
         else Some codename)"

subsection \<open>POST /gadgets\<close>

text \<open>The handler never reads \<^verbatim>\<open>req.body\<close>, whatever it holds. \<open>uuid\<close> is the id the ORM
  generates for the new row. The result is \<open>None\<close> when the codename loop does not
  return.\<close>

definition Create ::
  "'body \<Rightarrow> string \<Rightarrow> date \<Rightarrow> (nat \<Rightarrow> double) \<Rightarrow> api_state
     \<Rightarrow> ((error + gadget) \<times> api_state) option"
where
  "Create body uuid now random s =
     (case generateUniqueCodename (gadgets s) random 0 of
        None \<Rightarrow> None
      | Some codename \<Rightarrow>
          (case Gadget_create uuid now codename Available (gadgets s) of
             Inl e \<Rightarrow> Some (Inl BadRequest, s)
           | Inr (gadget, rows) \<Rightarrow> Some (Inr gadget, s\<lparr>gadgets := rows\<rparr>)))"

subsection \<open>PATCH /gadgets/:id\<close>

definition Update ::
  "date \<Rightarrow> string \<Rightarrow> updates \<Rightarrow> api_state \<Rightarrow> (error + gadget) \<times> api_state"
where
  "Update now k updates s =
     (case findByPk (gadgets s) k of
        Inl e \<Rightarrow> (Inl BadRequest, s)
      | Inr None \<Rightarrow> (Inl NotFound, s)
      | Inr (Some gadget) \<Rightarrow>
          (case Gadget_update now updates gadget (gadgets s) of
             Inl e \<Rightarrow> (Inl BadRequest, s)
           | Inr (gadget', rows) \<Rightarrow> (Inr gadget', s\<lparr>gadgets := rows\<rparr>)))"

subsection \<open>DELETE /gadgets/:id\<close>

definition Decommission ::
  "date \<Rightarrow> string \<Rightarrow> api_state \<Rightarrow> (error + string) \<times> api_state"
where
  "Decommission now k s =
     (case findByPk (gadgets s) k of
        Inl e \<Rightarrow> (Inl BadRequest, s)
      | Inr None \<Rightarrow> (Inl NotFound, s)
      | Inr (Some gadget) \<Rightarrow>
          (case Gadget_update now
                  (no_values\<lparr>v_status := Value ''Decommissioned'',
                              v_decommissionedAt := Value now\<rparr>)
                  gadget (gadgets s) of
             Inl e \<Rightarrow> (Inl BadRequest, s)
           | Inr (gadget', rows) \<Rightarrow> (Inr ''Gadget decommissioned'', s\<lparr>gadgets := rows\<rparr>)))"

subsection \<open>POST /gadgets/:id/self-destruct/generate-code\<close>

definition GenerateSelfDestructCode ::
  "double \<Rightarrow> string \<Rightarrow> api_state \<Rightarrow> (error + string) \<times> api_state"
where
  "GenerateSelfDestructCode random k s =
     (case findByPk (gadgets s) k of
        Inl e \<Rightarrow> (Inl BadRequest, s)
      | Inr None \<Rightarrow> (Inl NotFound, s)
      | Inr (Some gadget) \<Rightarrow>
          (let confirmationCode = toString (Math_floor (multiply random 90000) + 10000)
           in (Inr confirmationCode,
               s\<lparr>pendingSelfDestructCodes :=
                    js_set (pendingSelfDestructCodes s) k confirmationCode\<rparr>)))"

subsection \<open>POST /gadgets/:id/self-destruct\<close>

definition ConfirmSelfDestruct ::
  "date \<Rightarrow> string \<Rightarrow> jsvalue \<Rightarrow> api_state \<Rightarrow> (error + string) \<times> api_state"
where
  "ConfirmSelfDestruct now k confirmationCode s =
     (let storedCode = js_get (pendingSelfDestructCodes s) k
      in if \<not> truthy storedCode then (Inl BadRequest, s)
         else if \<not> strict_equal confirmationCode storedCode then (Inl Forbidden, s)
         else (case findByPk (gadgets s) k of
                 Inl e \<Rightarrow> (Inl BadRequest, s)
               | Inr None \<Rightarrow> (Inl NotFound, s)
               | Inr (Some gadget) \<Rightarrow>
                   (case Gadget_update now (no_values\<lparr>v_status := Value ''Destroyed''\<rparr>)
                           gadget (gadgets s) of
                      Inl e \<Rightarrow> (Inl BadRequest, s)
                    | Inr (gadget', rows) \<Rightarrow>
                        (Inr ''Gadget self-destructed'',
                         s\<lparr>gadgets := rows,
                           pendingSelfDestructCodes :=
                             js_delete (pendingSelfDestructCodes s) k\<rparr>))))"

subsection \<open>Sequential clients\<close>

text \<open>
  A client that sends one POST /gadgets after the other, each with its own generated id,
  clock reading and draws, and collects the gadgets the answers carry. A rejected call
  (400) contributes no gadget; the run has no value when one call never answers.
\<close>

fun sequential_creates ::
  "('body \<times> string \<times> date \<times> (nat \<Rightarrow> double)) list \<Rightarrow> api_state
     \<Rightarrow> (gadget list \<times> api_state) option"
where
  "sequential_creates [] s = Some ([], s)"
| "sequential_creates ((body, uuid, now, random) # reqs) s =
     (case Create body uuid now random s of
        None \<Rightarrow> None
      | Some (Inl e, s') \<Rightarrow> sequential_creates reqs s'
      | Some (Inr gadget, s') \<Rightarrow>
          (case sequential_creates reqs s' of
             None \<Rightarrow> None
           | Some (created, s'') \<Rightarrow> Some (gadget # created, s'')))"

text \<open>A client that sends the confirmation codes \<open>guesses\<close> for the gadget \<open>k\<close>, one
  request after the other, and keeps the answers.\<close>

fun sequential_confirms ::
  "date \<Rightarrow> string \<Rightarrow> jsvalue list \<Rightarrow> api_state \<Rightarrow> (error + string) list \<times> api_state"
where
  "sequential_confirms now k [] s = ([], s)"
| "sequential_confirms now k (guess # guesses) s =
     (let (answer, s') = ConfirmSelfDestruct now k guess s;
          (answers, s'') = sequential_confirms now k guesses s'
      in (answer # answers, s''))"

text \<open>
  The states the routes keep: every pending code is a string of five decimal digits.
\<close>

definition is_code :: "string \<Rightarrow> bool" where
  "is_code c \<longleftrightarrow> length c = 5 \<and> list_all (\<lambda>ch. ch \<in> set ''0123456789'') c"

definition pending_codes_ok :: "api_state \<Rightarrow> bool" where
  "pending_codes_ok s \<longleftrightarrow> (\<forall>k c. pendingSelfDestructCodes s k = Some c \<longrightarrow> is_code c)"

section \<open>The auth routes\<close>

text \<open>
  The Users table holds the rows of the credential store. \<^verbatim>\<open>bcrypt\<close> is a library the
  routes call: \<open>compare\<close> stands for \<^verbatim>\<open>bcrypt.compare(plain, stored)\<close> and \<open>hash\<close> for
  \<^verbatim>\<open>bcrypt.hash\<close> with the salt of the call; both are parameters.
\<close>

record user =
  user_id :: nat
  username :: string
  password :: string

text \<open>The payload of the token \<^verbatim>\<open>jwt.sign({ id: user.id }, secret, { expiresIn: '1h' })\<close>,
  with the issue and expiry times in seconds.\<close>

record token =
  token_id :: nat
  token_iat :: int
  token_exp :: int

text \<open>
  Modelled from the spec: the User model (\<^verbatim>\<open>User\<close> of \<^verbatim>\<open>require('../models')\<close>), whose
  \<^verbatim>\<open>create\<close> the register route calls, is not among the source files. The spec says of
  it: "fails if username already exists (unique constraint); stores a hash of the
  password, never the plaintext". \<open>uid\<close> is the id the table gives the new row.
\<close>

definition User_create ::
  "(string \<Rightarrow> string) \<Rightarrow> nat \<Rightarrow> string \<Rightarrow> string \<Rightarrow> user list \<Rightarrow> orm_error + (user \<times> user list)"
where
  "User_create hash uid uname pw users =
     (if \<exists>u \<in> set users. username u = uname \<or> user_id u = uid
      then Inl UniqueConstraintError
      else let user = \<lparr>user_id = uid, username = uname, password = hash pw\<rparr>
           in Inr (user, users @ [user]))"

definition User_findOne :: "user list \<Rightarrow> string \<Rightarrow> user option" where
  "User_findOne users uname = find (\<lambda>u. username u = uname) users"

subsection \<open>POST /auth/register\<close>

definition Register ::
  "(string \<Rightarrow> string) \<Rightarrow> nat \<Rightarrow> string \<Rightarrow> string \<Rightarrow> user list \<Rightarrow> (error + string) \<times> user list"
where
  "Register hash uid uname pw users =
     (case User_create hash uid uname pw users of
        Inl e \<Rightarrow> (Inl BadRequest, users)
      | Inr (user, users') \<Rightarrow> (Inr ''User created'', users'))"

subsection \<open>POST /auth/login\<close>

definition Login ::
  "(string \<Rightarrow> string \<Rightarrow> bool) \<Rightarrow> date \<Rightarrow> string \<Rightarrow> string \<Rightarrow> user list \<Rightarrow> error + token"
where
  "Login compare now uname pw users =
     (case User_findOne users uname of
        None \<Rightarrow> Inl Unauthenticated
      | Some user \<Rightarrow>
          (let isMatch = compare pw (password user)
           in if \<not> isMatch then Inl Unauthenticated
              else Inr \<lparr>token_id = user_id user, token_iat = now div 1000,
                        token_exp = now div 1000 + 3600\<rparr>))"

section \<open>Example states\<close>

text \<open>
  A small inventory on which the theorems below are run: three gadgets, the second
  already destroyed and the third decommissioned, and one pending code, for the first.
  \<open>id4\<close> and \<open>id5\<close> are ids of no gadget yet.
\<close>

definition id1 :: string where "id1 = ''00000000-0000-4000-8000-000000000001''"
definition id2 :: string where "id2 = ''00000000-0000-4000-8000-000000000002''"
definition id3 :: string where "id3 = ''00000000-0000-4000-8000-000000000003''"
definition id4 :: string where "id4 = ''00000000-0000-4000-8000-000000000004''"
definition id5 :: string where "id5 = ''00000000-0000-4000-8000-000000000005''"

definition kraken :: gadget where
  "kraken = \<lparr>gadget_id = id1, name = ''The Kraken'', status = Available,
              decommissionedAt = None, createdAt = 1000, updatedAt = 1000\<rparr>"

definition viper :: gadget where
  "viper = \<lparr>gadget_id = id2, name = ''The Viper'', status = Destroyed,
             decommissionedAt = None, createdAt = 2000, updatedAt = 3000\<rparr>"

definition cipher :: gadget where
  "cipher = \<lparr>gadget_id = id3, name = ''The Cipher'', status = Decommissioned,
              decommissionedAt = Some 4000, createdAt = 3000, updatedAt = 4000\<rparr>"

definition inventory :: api_state where
  "inventory = \<lparr>gadgets = [kraken, viper, cipher],
                 pendingSelfDestructCodes = [id1 \<mapsto> ''12345'']\<rparr>"

text \<open>Draws of \<^verbatim>\<open>Math.random()\<close>: \<open>0\<close>, \<open>1/2\<close>, and the Numbers nearest to \<open>1/14\<close> and
  \<open>3/14\<close>.\<close>

definition draw_0 :: double where "draw_0 = \<lparr>significand = 0, exponent = - 1074\<rparr>"
definition draw_half :: double where "draw_half = \<lparr>significand = 1, exponent = - 1\<rparr>"
definition draw_1_14 :: double where
  "draw_1_14 = \<lparr>significand = 2573485501354569, exponent = - 55\<rparr>"
definition draw_3_14 :: double where
  "draw_3_14 = \<lparr>significand = 7720456504063707, exponent = - 55\<rparr>"

section \<open>Facts about numbers\<close>

lemma bit_length_0 [simp]: "bit_length 0 = 0"
  by (subst bit_length.simps) simp

lemma bit_length_numeral [simp]:
  "bit_length (numeral n) = Suc (bit_length (numeral n div 2))"
  by (subst bit_length.simps) simp

lemma bit_length_1 [simp]: "bit_length (Suc 0) = 1"
  by (subst bit_length.simps) simp

lemma bit_length_upper: "n < 2 ^ bit_length n"
proof (induction n rule: bit_length.induct)
  case (1 n)
  show ?case
  proof (cases "n = 0")
    case True
    then show ?thesis by (subst bit_length.simps) simp
  next
    case False
    with 1 have "n div 2 < 2 ^ bit_length (n div 2)" by simp
    then have "n < 2 * 2 ^ bit_length (n div 2)" by linarith
    with False show ?thesis by (subst bit_length.simps) simp
  qed
qed

lemma bit_length_lower: "n \<noteq> 0 \<Longrightarrow> 2 ^ (bit_length n - 1) \<le> n"
proof (induction n rule: bit_length.induct)
  case (1 n)
  show ?case
  proof (cases "n div 2 = 0")
    case True
    with 1(2) have "n = 1" by (simp add: div_eq_0_iff) 
    then show ?thesis by simp
  next
    case False
    with 1 have ih: "2 ^ (bit_length (n div 2) - 1) \<le> n div 2" by simp
    from False have "bit_length (n div 2) \<noteq> 0" by (subst bit_length.simps) simp
    then have "(2::nat) ^ bit_length (n div 2) = 2 * 2 ^ (bit_length (n div 2) - 1)"
      by (cases "bit_length (n div 2)") simp_all
    with ih have "2 ^ bit_length (n div 2) \<le> n" by linarith
    with 1(2) show ?thesis by (subst bit_length.simps) simp
  qed
qed

lemma round_even_upper:
  assumes "0 < d"
  shows "round_even m d * 2 ^ d \<le> m + 2 ^ (d - 1)"
proof -
  let ?q = "m div 2 ^ d" and ?r = "m mod 2 ^ d"
  have m: "?q * 2 ^ d + ?r = m" by (rule div_mult_mod_eq)
  have two: "(2::nat) ^ d = 2 * 2 ^ (d - 1)" using assms by (cases d) simp_all
  have le: "round_even m d \<le> (if ?r < 2 ^ (d - 1) then ?q else ?q + 1)"
    by (simp add: round_even_def Let_def)
  show ?thesis
  proof (cases "?r < 2 ^ (d - 1)")
    case True
    with le have "round_even m d \<le> ?q" by simp
    then have "round_even m d * 2 ^ d \<le> ?q * 2 ^ d" by (rule mult_le_mono1)
    also have "\<dots> \<le> m" using m by linarith
    finally show ?thesis by simp
  next
    case False
    with le have "round_even m d \<le> ?q + 1" by simp
    then have "round_even m d * 2 ^ d \<le> (?q + 1) * 2 ^ d" by (rule mult_le_mono1)
    also have "\<dots> = ?q * 2 ^ d + 2 ^ d" by (simp add: algebra_simps)
    also have "\<dots> \<le> ?q * 2 ^ d + ?r + 2 ^ (d - 1)" using False two by linarith
    also have "\<dots> = m + 2 ^ (d - 1)" using m by simp
    finally show ?thesis .
  qed
qed

text \<open>A product of a draw with a positive integer, rounded as the machine rounds it,
  stays below the integer once floored.\<close>

lemma floor_times_less:
  assumes "random_ok x" "0 < c"
  shows "0 \<le> Math_floor (multiply x c)" "Math_floor (multiply x c) < int c"
proof -
  define m where "m = significand x"
  define k where "k = nat (- exponent x)"
  define M where "M = m * c"
  define d where "d = bit_length M - 53"
  from assms(1) have m53: "m < 2 ^ 53" and mk: "m < 2 ^ k" and e: "exponent x = - int k" "0 < k"
    by (simp_all add: random_ok_def m_def k_def)
  show "0 \<le> Math_floor (multiply x c)" by (simp add: Math_floor_def)
  have Mlt: "M < c * 2 ^ k" unfolding M_def using mk assms(2) by (simp add: mult.commute)
  show "Math_floor (multiply x c) < int c"
  proof (cases "d = 0")
    case True
    then have "multiply x c = \<lparr>significand = M, exponent = - int k\<rparr>"
      by (simp add: multiply_def Let_def M_def m_def d_def e)
    then have "Math_floor (multiply x c) = int (M div 2 ^ k)"
      using e(2) by (simp add: Math_floor_def)
    moreover have "M div 2 ^ k < c" using Mlt by (simp add: div_less_iff_less_mult)
    then have "int (M div 2 ^ k) < int c" by (simp only: of_nat_less_iff)
    ultimately show ?thesis by simp
  next
    case False
    then have d: "0 < d" by simp
    define R where "R = round_even M d"
    have t: "multiply x c = \<lparr>significand = R, exponent = int d - int k\<rparr>"
      using False by (simp add: multiply_def Let_def M_def m_def d_def e R_def)
    have R: "R * 2 ^ d \<le> M + 2 ^ (d - 1)" unfolding R_def using d by (rule round_even_upper)
    have b: "bit_length M - 1 = d + 52" using d by (simp add: d_def)
    have "M \<noteq> 0"
    proof
      assume "M = 0"
      then have "d = 0" by (simp add: d_def)
      with d show False by simp
    qed
    then have Mge: "2 ^ (d + 52) \<le> M" using bit_length_lower[of M] b by simp
    have half: "(2::nat) ^ (d - 1) \<le> 2 ^ (d + 52)" by (rule power_increasing) simp_all
    have key: "M + 2 ^ (d - 1) < c * 2 ^ k"
    proof (cases "k \<le> 53")
      case True
      have "2 ^ (d + 52) < c * 2 ^ k" using Mge Mlt by linarith
      moreover have "(2::nat) ^ (d + 52) = 2 ^ (d + 52 - k) * 2 ^ k"
        using True d by (simp flip: power_add)
      ultimately have "2 ^ (d + 52 - k) < c" by simp
      moreover have "(2::nat) ^ (d - 1) \<le> 2 ^ (d + 52 - k)"
        using True by (intro power_increasing) simp_all
      ultimately have "2 ^ (d - 1) < c" by linarith
      then have "2 ^ (d - 1) + 1 \<le> c" by simp
      moreover have "m + 1 \<le> 2 ^ k" using mk by simp
      then have "c * (m + 1) \<le> c * 2 ^ k" by (rule mult_le_mono2)
      ultimately show ?thesis unfolding M_def by (simp add: algebra_simps)
    next
      case False
      then have "(2::nat) ^ 54 \<le> 2 ^ k" by (intro power_increasing) simp_all
      then have "2 * m < 2 ^ k" using m53 by simp
      then have "c * (2 * m) \<le> c * 2 ^ k" by (intro mult_le_mono2) simp
      then have "2 * M \<le> c * 2 ^ k" by (simp add: M_def algebra_simps)
      moreover have "2 ^ (d - 1) < M"
      proof -
        have "(2::nat) ^ (d - 1) < 2 ^ (d + 52)" by (rule power_strict_increasing) simp_all
        with Mge show ?thesis by linarith
      qed
      ultimately show ?thesis by linarith
    qed
    with R have lt: "R * 2 ^ d < c * 2 ^ k" by linarith
    show ?thesis
    proof (cases "k \<le> d")
      case True
      then have fl: "Math_floor (multiply x c) = int (R * 2 ^ (d - k))"
        by (simp add: t Math_floor_def nat_diff_distrib')
      have "(2::nat) ^ d = 2 ^ (d - k) * 2 ^ k" using True by (simp flip: power_add)
      with lt have "(R * 2 ^ (d - k)) * 2 ^ k < c * 2 ^ k" by (simp add: mult.assoc)
      then have "R * 2 ^ (d - k) < c" by simp
      then have "int (R * 2 ^ (d - k)) < int c" by (simp only: of_nat_less_iff)
      with fl show ?thesis by simp
    next
      case False
      then have fl: "Math_floor (multiply x c) = int (R div 2 ^ (k - d))"
        by (simp add: t Math_floor_def nat_diff_distrib')
      have "(2::nat) ^ k = 2 ^ (k - d) * 2 ^ d" using False by (simp flip: power_add)
      with lt have "R * 2 ^ d < (c * 2 ^ (k - d)) * 2 ^ d" by (simp add: mult.assoc)
      then have "R < c * 2 ^ (k - d)" by simp
      then have "R div 2 ^ (k - d) < c" by (simp add: div_less_iff_less_mult)
      then have "int (R div 2 ^ (k - d)) < int c" by (simp only: of_nat_less_iff)
      with fl show ?thesis by simp
    qed
  qed
qed



lemma draws_ok:
  "random_ok draw_0" "random_ok draw_half" "random_ok draw_1_14" "random_ok draw_3_14"
  by (simp_all add: random_ok_def draw_0_def draw_half_def draw_1_14_def draw_3_14_def)

text \<open>
  The product is rounded as the machine rounds it: the Number nearest to \<open>1/14\<close> lies
  below \<open>1/14\<close>, and its product with 14 is the Number 1, not a value below 1.
\<close>

lemma multiply_rounds:
  "multiply draw_1_14 14 = \<lparr>significand = 9007199254740992, exponent = - 53\<rparr>"
  "Math_floor (multiply draw_1_14 14) = 1"
  "2573485501354569 * 14 < (2::nat) ^ 55"
  by (simp_all add: multiply_def draw_1_14_def Let_def round_even_def Math_floor_def)

lemma floor_draws:
  "Math_floor (multiply draw_0 14) = 0"
  "Math_floor (multiply draw_1_14 14) = 1"
  "Math_floor (multiply draw_3_14 14) = 3"
  "Math_floor (multiply draw_half 90000) = 45000"
  by (simp_all add: multiply_def draw_0_def draw_1_14_def draw_3_14_def draw_half_def Let_def
      round_even_def Math_floor_def)

subsection \<open>Rendering numbers\<close>

lemma digit_is_digit: "d < 10 \<Longrightarrow> digit d \<in> set ''0123456789''"
proof -
  assume "d < 10"
  then have "d < length ''0123456789''" by simp
  then show ?thesis unfolding digit_def by (rule nth_mem)
qed

lemma toString_nat_digits: "list_all (\<lambda>ch. ch \<in> set ''0123456789'') (toString_nat n)"
proof (induction n rule: toString_nat.induct)
  case (1 n)
  show ?case
  proof (cases "n < 10")
    case True
    then show ?thesis
      using digit_is_digit[of n] by (subst toString_nat.simps) simp
  next
    case False
    have "n mod 10 < 10" by simp
    then have "digit (n mod 10) \<in> set ''0123456789''" by (rule digit_is_digit)
    with False 1 show ?thesis
      by (subst toString_nat.simps) simp
  qed
qed

lemma toString_nat_length:
  "10 ^ m \<le> n \<Longrightarrow> n < 10 ^ Suc m \<Longrightarrow> length (toString_nat n) = Suc m"
proof (induction m arbitrary: n)
  case 0
  then show ?case by (subst toString_nat.simps) simp
next
  case (Suc m)
  have "(10::nat) \<le> 10 ^ Suc m" by simp
  with Suc.prems(1) have ge: "10 \<le> n" by linarith
  have "10 ^ m \<le> n div 10" using Suc.prems(1) by (simp add: less_eq_div_iff_mult_less_eq)
  moreover have "n div 10 < 10 ^ Suc m" using Suc.prems(2) by (simp add: div_less_iff_less_mult)
  ultimately have "length (toString_nat (n div 10)) = Suc m" by (rule Suc.IH)
  with ge show ?case by (subst toString_nat.simps) simp
qed


lemma toString_is_code:
  assumes "10000 \<le> n" "n \<le> (99999::int)"
  shows "is_code (toString n)"
proof -
  have "10 ^ 4 \<le> nat n" "nat n < 10 ^ Suc 4" using assms by simp_all
  then have "length (toString_nat (nat n)) = Suc 4" by (rule toString_nat_length)
  then show ?thesis
    using assms toString_nat_digits[of "nat n"] by (simp add: is_code_def toString_def)
qed

text \<open>The confirmation code of a draw is a number between 10000 and 99999.\<close>

lemma code_range:
  assumes "random_ok r"
  shows "10000 \<le> Math_floor (multiply r 90000) + 10000"
    "Math_floor (multiply r 90000) + 10000 \<le> 99999"
  using floor_times_less[OF assms, of 90000] by simp_all

lemma toString_55000: "toString 55000 = ''55000''"
  by (simp add: toString_def toString_nat.simps digit_def)

section \<open>Facts about ids\<close>

lemmas uuid_defs = uuid_in_def uuid_out_def isxdigit_def lower_hex_def uuid_bytes.simps

lemma uuid_in_ids:
  "uuid_in id1 = Some id1" "uuid_in id2 = Some id2" "uuid_in id3 = Some id3"
  "uuid_in id4 = Some id4" "uuid_in id5 = Some id5"
  by (simp_all add: uuid_defs id1_def id2_def id3_def id4_def id5_def)

text \<open>The database reads a UUID in other spellings too, and refuses any other text.\<close>

lemma uuid_in_spellings:
  "uuid_in ''{00000000-0000-4000-8000-00000000000A}'' = Some ''00000000-0000-4000-8000-00000000000a''"
  "uuid_in ''0000000000004000800000000000000a'' = Some ''00000000-0000-4000-8000-00000000000a''"
  "uuid_in ''abc'' = None" "uuid_in ''1'' = None" "uuid_in [] = None"
  "uuid_in ''00000000-0000-4000-8000-00000000000g'' = None"
  "uuid_in ''00000000-0000-4000-8000-0000000000011'' = None"
  by (simp_all add: uuid_defs)

lemma ids_distinct:
  "id1 \<noteq> id2" "id1 \<noteq> id3" "id1 \<noteq> id4" "id1 \<noteq> id5"
  "id2 \<noteq> id1" "id2 \<noteq> id3" "id2 \<noteq> id4" "id2 \<noteq> id5"
  "id3 \<noteq> id1" "id3 \<noteq> id2" "id3 \<noteq> id4" "id3 \<noteq> id5"
  "id4 \<noteq> id1" "id4 \<noteq> id2" "id4 \<noteq> id3" "id4 \<noteq> id5"
  "id5 \<noteq> id1" "id5 \<noteq> id2" "id5 \<noteq> id3" "id5 \<noteq> id4"
  by (simp_all add: id1_def id2_def id3_def id4_def id5_def)

text \<open>No member of \<^verbatim>\<open>Object.prototype\<close> has a name that the database reads as a UUID.\<close>

lemma uuid_not_inherited:
  assumes "uuid_in k = Some u"
  shows "k \<notin> set Object_prototype"
proof
  assume "k \<in> set Object_prototype"
  then have "uuid_in k = None"
    by (auto simp: Object_prototype_def uuid_defs)
  with assms show False by simp
qed

lemma ids_not_inherited:
  "id1 \<notin> set Object_prototype" "id2 \<notin> set Object_prototype" "id3 \<notin> set Object_prototype"
  "id4 \<notin> set Object_prototype" "id5 \<notin> set Object_prototype"
  by (rule uuid_not_inherited, rule uuid_in_ids)+

section \<open>Facts about the ORM calls\<close>

lemma beforeUpdate_frame [simp]:
  "gadget_id (beforeUpdate now g) = gadget_id g"
  "name (beforeUpdate now g) = name g"
  "status (beforeUpdate now g) = status g"
  "createdAt (beforeUpdate now g) = createdAt g"
  "updatedAt (beforeUpdate now g) = updatedAt g"
  by (simp_all add: beforeUpdate_def)

lemma beforeUpdate_post:
  "status g = Decommissioned \<Longrightarrow> decommissionedAt g = None \<Longrightarrow>
     decommissionedAt (beforeUpdate now g) = Some now"
  "status g = Decommissioned \<Longrightarrow> decommissionedAt (beforeUpdate now g) \<noteq> None"
  "status g \<noteq> Decommissioned \<Longrightarrow> decommissionedAt (beforeUpdate now g) = None"
  by (auto simp: beforeUpdate_def)

lemma set_values_frame [simp]:
  "gadget_id (set_values vs g) = gadget_id g"
  "createdAt (set_values vs g) = createdAt g"
  "updatedAt (set_values vs g) = updatedAt g"
  by (simp_all add: set_values_def)

lemma decommissionedAt_set_values:
  "decommissionedAt (set_values vs g) =
     (case v_decommissionedAt vs of Absent \<Rightarrow> decommissionedAt g | Null \<Rightarrow> None | Value d \<Rightarrow> Some d)"
  by (simp add: set_values_def)

lemma not_changed:
  "\<not> changed now vs g \<Longrightarrow> beforeUpdate now (set_values vs g) = g"
  by (simp add: changed_def)

text \<open>A successful \<^verbatim>\<open>update\<close> either sent no statement or wrote the row from the
  instance.\<close>

lemma Gadget_update_cases:
  assumes "Gadget_update now vs g rows = Inr (g', rows')"
  obtains
    (unchanged) "valid_values vs" "\<not> changed now vs g"
      "g' = (if has_attribute vs then g\<lparr>updatedAt := now\<rparr> else g)" "rows' = rows"
  | (written) "valid_values vs" "changed now vs g"
      "g' = (if has_attribute vs then (beforeUpdate now (set_values vs g))\<lparr>updatedAt := now\<rparr>
             else beforeUpdate now (set_values vs g))"
      "rows' = map (\<lambda>r. if gadget_id r = gadget_id g then g' else r) rows"
proof (cases "changed now vs g")
  case True
  with assms written show ?thesis
    unfolding Gadget_update_def Let_def by (auto split: if_splits)
next
  case False
  with assms unchanged not_changed[OF False] show ?thesis
    unfolding Gadget_update_def Let_def by (auto split: if_splits)
qed

lemma Gadget_update_fields:
  assumes "Gadget_update now vs g rows = Inr (g', rows')"
  shows "gadget_id g' = gadget_id g" "createdAt g' = createdAt g"
    "name g' = name (set_values vs g)" "status g' = status (set_values vs g)"
    "decommissionedAt g' = decommissionedAt (beforeUpdate now (set_values vs g))"
    "updatedAt g' = (if has_attribute vs then now else updatedAt g)"
  using assms
  by (auto simp: Gadget_update_def Let_def split: if_splits)

lemma find_row_id: "find_row rows u = Some g \<Longrightarrow> gadget_id g = u"
  unfolding find_row_def by (induction rows) (auto split: if_splits)

lemma find_row_replace:
  assumes "find_row rows u = Some g" "gadget_id g' = u"
  shows "find_row (map (\<lambda>r. if gadget_id r = u then g' else r) rows) u = Some g'"
  using assms unfolding find_row_def
  by (induction rows) (auto split: if_splits)

lemma find_row_replace_other:
  assumes "u' \<noteq> u" "gadget_id g' = u"
  shows "find_row (map (\<lambda>r. if gadget_id r = u then g' else r) rows) u' = find_row rows u'"
  using assms unfolding find_row_def
  by (induction rows) auto


lemma findByPk_Some:
  assumes "findByPk rows k = Inr (Some g)"
  shows "uuid_in k = Some (gadget_id g)" "find_row rows (gadget_id g) = Some g"
  using assms find_row_id unfolding findByPk_def
  by (auto split: option.splits)

lemma findByPk_find_row:
  "uuid_in k = Some u \<Longrightarrow> findByPk rows k = Inr (find_row rows u)"
  by (simp add: findByPk_def)

lemma findByPk_None: "uuid_in k = None \<Longrightarrow> findByPk rows k = Inl DatabaseError"
  by (simp add: findByPk_def)

text \<open>The row as stored after an \<^verbatim>\<open>update\<close>: the instance when a statement was sent, the
  row as it was otherwise. It agrees with the instance except, when no statement was
  sent, on \<^verbatim>\<open>updatedAt\<close>.\<close>

lemma Gadget_update_stored:
  assumes "Gadget_update now vs g rows = Inr (g', rows')" "find_row rows (gadget_id g) = Some g"
  shows "find_row rows' (gadget_id g) = Some (if changed now vs g then g' else g)"
    and "(if changed now vs g then g' else g)
           = g'\<lparr>updatedAt := (if changed now vs g then updatedAt g' else updatedAt g)\<rparr>"
proof -
  have id: "gadget_id g' = gadget_id g" using Gadget_update_fields(1)[OF assms(1)] .
  show "find_row rows' (gadget_id g) = Some (if changed now vs g then g' else g)"
    using assms(1)
  proof (cases rule: Gadget_update_cases)
    case unchanged
    with assms(2) show ?thesis by simp
  next
    case written
    from written(2,4) find_row_replace[OF assms(2) id] show ?thesis by simp
  qed
  show "(if changed now vs g then g' else g)
           = g'\<lparr>updatedAt := (if changed now vs g then updatedAt g' else updatedAt g)\<rparr>"
    using assms(1) by (cases rule: Gadget_update_cases) simp_all
qed

lemma Gadget_update_findByPk:
  assumes "Gadget_update now vs g rows = Inr (g', rows')" "findByPk rows k = Inr (Some g)"
  shows "\<exists>g''. findByPk rows' k = Inr (Some g'') \<and> g'' = (if changed now vs g then g' else g) \<and>
           gadget_id g'' = gadget_id g' \<and> name g'' = name g' \<and> status g'' = status g' \<and>
           decommissionedAt g'' = decommissionedAt g' \<and> createdAt g'' = createdAt g' \<and>
           updatedAt g'' = (if changed now vs g then updatedAt g' else updatedAt g)"
proof -
  note k = findByPk_Some[OF assms(2)]
  let ?g = "if changed now vs g then g' else g"
  note st = Gadget_update_stored[OF assms(1) k(2)]
  have "findByPk rows' k = Inr (Some ?g)"
    using st(1) k(1) by (simp add: findByPk_def)
  moreover have "gadget_id ?g = gadget_id g' \<and> name ?g = name g' \<and> status ?g = status g' \<and>
           decommissionedAt ?g = decommissionedAt g' \<and> createdAt ?g = createdAt g' \<and>
           updatedAt ?g = (if changed now vs g then updatedAt g' else updatedAt g)"
    by (subst (1 2 3 4 5 6) st(2)) simp
  ultimately show ?thesis by blast
qed

lemma Gadget_update_find_row_other:
  assumes "Gadget_update now vs g rows = Inr (g', rows')" "u \<noteq> gadget_id g"
  shows "find_row rows' u = find_row rows u"
  using assms(1)
proof (cases rule: Gadget_update_cases)
  case unchanged
  then show ?thesis by simp
next
  case written
  have "gadget_id g' = gadget_id g" using Gadget_update_fields(1)[OF assms(1)] .
  then show ?thesis using written(4) find_row_replace_other[OF assms(2)] by simp
qed

lemma ENUM_simps [simp]:
  "ENUM ''Available'' = Some Available" "ENUM ''Deployed'' = Some Deployed"
  "ENUM ''Destroyed'' = Some Destroyed" "ENUM ''Decommissioned'' = Some Decommissioned"
  by (simp_all add: ENUM_def)

text \<open>An update is accepted when its values are valid and its name entry, if there is
  one, is not the name of another row.\<close>

lemma Gadget_update_accepted:
  assumes "valid_values vs"
    and "\<And>nm. v_name vs = Value nm \<Longrightarrow> nm = name g \<or> \<not> name_taken rows (gadget_id g) nm"
  shows "\<exists>g' rows'. Gadget_update now vs g rows = Inr (g', rows')"
proof (cases "v_name vs")
  case (Value nm)
  with assms show ?thesis
    unfolding Gadget_update_def Let_def by (auto simp: set_values_def)
next
  case Absent
  with assms(1) show ?thesis
    unfolding Gadget_update_def Let_def by (auto simp: set_values_def)
next
  case Null
  with assms(1) show ?thesis by (simp add: valid_values_def)
qed

lemmas example_defs = kraken_def viper_def cipher_def inventory_def

lemmas route_defs = findByPk_def find_row_def Gadget_update_def changed_def valid_values_def
  has_attribute_def no_values_def set_values_def beforeUpdate_def name_taken_def Let_def
  uuid_in_ids ids_distinct

lemma inventory_rows:
  "findByPk (gadgets inventory) id1 = Inr (Some kraken)"
  "findByPk (gadgets inventory) id2 = Inr (Some viper)"
  "findByPk (gadgets inventory) id3 = Inr (Some cipher)"
  "findByPk (gadgets inventory) id4 = Inr None"
  "findByPk (gadgets inventory) ''abc'' = Inl DatabaseError"
  by (simp_all add: findByPk_def find_row_def example_defs uuid_in_ids ids_distinct
      uuid_in_spellings)

section \<open>Decommission\<close>

lemma Decommission_ok:
  assumes "findByPk (gadgets s) k = Inr (Some g)"
  shows "\<exists>g' s'. Decommission now k s = (Inr ''Gadget decommissioned'', s') \<and>
           findByPk (gadgets s') k = Inr (Some g') \<and> status g' = Decommissioned \<and>
           decommissionedAt g' = Some now \<and>
           pendingSelfDestructCodes s' = pendingSelfDestructCodes s"
proof -
  let ?vs = "no_values\<lparr>v_status := Value ''Decommissioned'',
                        v_decommissionedAt := Value now\<rparr>"
  have valid: "valid_values ?vs" by (simp add: valid_values_def no_values_def)
  have "v_name ?vs = Absent" by (simp add: no_values_def)
  then obtain g' rows' where upd: "Gadget_update now ?vs g (gadgets s) = Inr (g', rows')"
    using Gadget_update_accepted[OF valid, of g "gadgets s" now] by auto
  have f: "status g' = Decommissioned" "decommissionedAt g' = Some now"
    using Gadget_update_fields[OF upd] by (simp_all add: set_values_def beforeUpdate_def)
  from Gadget_update_findByPk[OF upd assms] obtain g'' where
    g'': "findByPk rows' k = Inr (Some g'')" "status g'' = status g'"
      "decommissionedAt g'' = decommissionedAt g'"
    by (elim exE conjE)
  have "Decommission now k s = (Inr ''Gadget decommissioned'', s\<lparr>gadgets := rows'\<rparr>)"
    using assms upd by (simp add: Decommission_def)
  with g'' f show ?thesis by simp
qed

text \<open>
  Claim C2, as the code has it. For every gadget that exists, two calls of Decommission
  in sequence both succeed, and after each call the status is Decommissioned and the
  decommission timestamp is the clock reading of that call: non-null after the first
  call, and overwritten by the second with its own reading \<open>t2\<close>. It is left as the
  first call set it only when both calls read the same instant.
\<close>

theorem Decommission_twice:
  assumes "findByPk (gadgets s) k = Inr (Some g)"
  shows "\<exists>s1 s2 g1 g2.
     Decommission t1 k s = (Inr ''Gadget decommissioned'', s1) \<and>
     findByPk (gadgets s1) k = Inr (Some g1) \<and>
     status g1 = Decommissioned \<and> decommissionedAt g1 = Some t1 \<and>
     Decommission t2 k s1 = (Inr ''Gadget decommissioned'', s2) \<and>
     findByPk (gadgets s2) k = Inr (Some g2) \<and>
     status g2 = Decommissioned \<and> decommissionedAt g2 = Some t2"
proof -
  obtain g1 s1 where 1: "Decommission t1 k s = (Inr ''Gadget decommissioned'', s1)"
      "findByPk (gadgets s1) k = Inr (Some g1)" "status g1 = Decommissioned"
      "decommissionedAt g1 = Some t1"
    using Decommission_ok[OF assms, of t1] by blast
  obtain g2 s2 where 2: "Decommission t2 k s1 = (Inr ''Gadget decommissioned'', s2)"
      "findByPk (gadgets s2) k = Inr (Some g2)" "status g2 = Decommissioned"
      "decommissionedAt g2 = Some t2"
    using Decommission_ok[OF 1(2), of t2] by blast
  from 1 2 show ?thesis by blast
qed

theorem Decommission_twice_witness:
  "findByPk (gadgets inventory) id1 = Inr (Some kraken) \<and>
   (\<exists>s1 s2 g1 g2.
     Decommission 5000 id1 inventory = (Inr ''Gadget decommissioned'', s1) \<and>
     findByPk (gadgets s1) id1 = Inr (Some g1) \<and>
     status g1 = Decommissioned \<and> decommissionedAt g1 = Some 5000 \<and>
     Decommission 7000 id1 s1 = (Inr ''Gadget decommissioned'', s2) \<and>
     findByPk (gadgets s2) id1 = Inr (Some g2) \<and>
     status g2 = Decommissioned \<and> decommissionedAt g2 = Some 7000)"
proof -
  have h: "findByPk (gadgets inventory) id1 = Inr (Some kraken)"
    by (rule inventory_rows)
  from Decommission_twice[OF h, of 5000 7000] h show ?thesis by simp
qed

text \<open>
  The claim as the spec words it, that the second call leaves the timestamp of the first
  unchanged, fails: decommissioned at 5000 and again at 7000, the first gadget of the
  example carries 5000 after the first call and 7000 after the second.
\<close>

theorem Decommission_twice_counterexample:
  "Decommission 5000 id1 inventory
     = (Inr ''Gadget decommissioned'',
        inventory\<lparr>gadgets := [kraken\<lparr>status := Decommissioned, decommissionedAt := Some 5000,
                                      updatedAt := 5000\<rparr>, viper, cipher]\<rparr>) \<and>
   Decommission 7000 id1
       (inventory\<lparr>gadgets := [kraken\<lparr>status := Decommissioned, decommissionedAt := Some 5000,
                                      updatedAt := 5000\<rparr>, viper, cipher]\<rparr>)
     = (Inr ''Gadget decommissioned'',
        inventory\<lparr>gadgets := [kraken\<lparr>status := Decommissioned, decommissionedAt := Some 7000,
                                      updatedAt := 7000\<rparr>, viper, cipher]\<rparr>) \<and>
   findByPk [kraken\<lparr>status := Decommissioned, decommissionedAt := Some 5000,
                    updatedAt := 5000\<rparr>, viper, cipher] id1
     = Inr (Some (kraken\<lparr>status := Decommissioned, decommissionedAt := Some 5000,
                         updatedAt := 5000\<rparr>)) \<and>
   findByPk [kraken\<lparr>status := Decommissioned, decommissionedAt := Some 7000,
                    updatedAt := 7000\<rparr>, viper, cipher] id1
     = Inr (Some (kraken\<lparr>status := Decommissioned, decommissionedAt := Some 7000,
                         updatedAt := 7000\<rparr>)) \<and>
   decommissionedAt (kraken\<lparr>status := Decommissioned, decommissionedAt := Some 7000,
                           updatedAt := 7000\<rparr>)
     \<noteq> decommissionedAt (kraken\<lparr>status := Decommissioned, decommissionedAt := Some 5000,
                             updatedAt := 5000\<rparr>)"
  by (simp add: Decommission_def route_defs example_defs)

section \<open>Update\<close>

lemma Update_Inr:
  assumes "Update now k updates s = (Inr g', s')"
  obtains g rows' where "findByPk (gadgets s) k = Inr (Some g)"
    "Gadget_update now updates g (gadgets s) = Inr (g', rows')" "s' = s\<lparr>gadgets := rows'\<rparr>"
  using assms unfolding Update_def
  by (auto split: option.splits sum.splits)

lemma Update_found:
  assumes "findByPk (gadgets s) k = Inr (Some g)"
    and "Gadget_update now updates g (gadgets s) = Inr (g', rows')"
  shows "Update now k updates s = (Inr g', s\<lparr>gadgets := rows'\<rparr>)"
  using assms by (simp add: Update_def)

text \<open>An update whose only entry is a status of the ENUM is accepted.\<close>

lemma status_accepted:
  assumes "ENUM label = Some st"
  shows "\<exists>g' rows'. Gadget_update now (no_values\<lparr>v_status := Value label\<rparr>) g rows = Inr (g', rows')"
  by (rule Gadget_update_accepted) (simp_all add: valid_values_def no_values_def assms)

text \<open>
  Claim C3, as the code has it. The hook reads the gadget after the entries of the body
  are assigned. For every existing gadget and every Update that goes through, the
  stored gadget has the status and the decommission timestamp of the answer, and: when
  the resulting status is Decommissioned and no decommission timestamp is set once the
  body is assigned (the stored one, unless the body has an entry of its own), the
  timestamp is the current time; with status Decommissioned it is never null; with any
  other resulting status it is null. An Update whose body is a status of the ENUM and
  nothing else always goes through: to Decommissioned it keeps a stored timestamp or
  else sets the current time, to any other status it clears the timestamp.
\<close>

theorem Update_decommission_timestamp:
  assumes "findByPk (gadgets s) k = Inr (Some g)"
  shows
   "(Update now k updates s = (Inr g', s') \<longrightarrow>
       (\<exists>g''. findByPk (gadgets s') k = Inr (Some g'') \<and> status g'' = status g' \<and>
              decommissionedAt g'' = decommissionedAt g') \<and>
       (status g' = Decommissioned \<and>
        (case v_decommissionedAt updates of
           Absent \<Rightarrow> decommissionedAt g | Null \<Rightarrow> None | Value d \<Rightarrow> Some d) = None
          \<longrightarrow> decommissionedAt g' = Some now) \<and>
       (status g' = Decommissioned \<longrightarrow> decommissionedAt g' \<noteq> None) \<and>
       (status g' \<noteq> Decommissioned \<longrightarrow> decommissionedAt g' = None)) \<and>
    (ENUM label = Some st \<longrightarrow>
       (\<exists>g1 g2 s1. Update now k (no_values\<lparr>v_status := Value label\<rparr>) s = (Inr g1, s1) \<and>
          findByPk (gadgets s1) k = Inr (Some g2) \<and> status g1 = st \<and> status g2 = st \<and>
          decommissionedAt g2 = decommissionedAt g1 \<and>
          decommissionedAt g1 =
            (if st = Decommissioned
             then (case decommissionedAt g of None \<Rightarrow> Some now | Some d \<Rightarrow> Some d)
             else None)))"
proof -
  have 1: "(\<exists>g''. findByPk (gadgets s') k = Inr (Some g'') \<and> status g'' = status g' \<and>
              decommissionedAt g'' = decommissionedAt g') \<and>
       (status g' = Decommissioned \<and>
        (case v_decommissionedAt updates of
           Absent \<Rightarrow> decommissionedAt g | Null \<Rightarrow> None | Value d \<Rightarrow> Some d) = None
          \<longrightarrow> decommissionedAt g' = Some now) \<and>
       (status g' = Decommissioned \<longrightarrow> decommissionedAt g' \<noteq> None) \<and>
       (status g' \<noteq> Decommissioned \<longrightarrow> decommissionedAt g' = None)"
    if u: "Update now k updates s = (Inr g', s')"
  proof -
    from u obtain g0 rows' where g0: "findByPk (gadgets s) k = Inr (Some g0)"
      and upd: "Gadget_update now updates g0 (gadgets s) = Inr (g', rows')"
      and s': "s' = s\<lparr>gadgets := rows'\<rparr>"
      by (rule Update_Inr)
    from g0 assms have [simp]: "g0 = g" by simp
    let ?set = "set_values updates g"
    have st: "status g' = status ?set"
      and ts: "decommissionedAt g' = decommissionedAt (beforeUpdate now ?set)"
      using Gadget_update_fields[OF upd] by simp_all
    have "\<exists>g''. findByPk (gadgets s') k = Inr (Some g'') \<and> status g'' = status g' \<and>
              decommissionedAt g'' = decommissionedAt g'"
      using Gadget_update_findByPk[OF upd g0] s' by auto
    moreover have "decommissionedAt g' = Some now"
      if "status g' = Decommissioned" "decommissionedAt ?set = None"
      using that st ts beforeUpdate_post(1)[of ?set now] by simp
    moreover have "decommissionedAt g' \<noteq> None" if "status g' = Decommissioned"
      using that st ts beforeUpdate_post(2)[of ?set now] by simp
    moreover have "decommissionedAt g' = None" if "status g' \<noteq> Decommissioned"
      using that st ts beforeUpdate_post(3)[of ?set now] by simp
    ultimately show ?thesis
      by (simp add: decommissionedAt_set_values)
  qed
  have 2: "\<exists>g1 g2 s1. Update now k (no_values\<lparr>v_status := Value label\<rparr>) s = (Inr g1, s1) \<and>
          findByPk (gadgets s1) k = Inr (Some g2) \<and> status g1 = st \<and> status g2 = st \<and>
          decommissionedAt g2 = decommissionedAt g1 \<and>
          decommissionedAt g1 =
            (if st = Decommissioned
             then (case decommissionedAt g of None \<Rightarrow> Some now | Some d \<Rightarrow> Some d)
             else None)"
    if e: "ENUM label = Some st"
  proof -
    let ?vs = "no_values\<lparr>v_status := Value label\<rparr>"
    from status_accepted[OF e] obtain g1 rows' where
      upd: "Gadget_update now ?vs g (gadgets s) = Inr (g1, rows')" by blast
    note f = Gadget_update_fields[OF upd]
    have st: "status g1 = st" using f(4) e by (simp add: set_values_def)
    have ts: "decommissionedAt g1 =
            (if st = Decommissioned
             then (case decommissionedAt g of None \<Rightarrow> Some now | Some d \<Rightarrow> Some d)
             else None)"
      using f(5) e
      by (auto simp: set_values_def beforeUpdate_def no_values_def split: option.splits)
    from Gadget_update_findByPk[OF upd assms] obtain g2 where
      g2: "findByPk rows' k = Inr (Some g2)" "status g2 = status g1"
        "decommissionedAt g2 = decommissionedAt g1"
      by (elim exE conjE)
    from Update_found[OF assms upd] g2 st ts show ?thesis by auto
  qed
  from 1 2 show ?thesis by blast
qed

theorem Update_decommission_timestamp_witness:
  "findByPk (gadgets inventory) id1 = Inr (Some kraken) \<and>
   Update 5000 id1 (no_values\<lparr>v_status := Value ''Decommissioned'', v_decommissionedAt := Null\<rparr>)
       inventory
     = (Inr (kraken\<lparr>status := Decommissioned, decommissionedAt := Some 5000, updatedAt := 5000\<rparr>),
        inventory\<lparr>gadgets := [kraken\<lparr>status := Decommissioned, decommissionedAt := Some 5000,
                                      updatedAt := 5000\<rparr>, viper, cipher]\<rparr>) \<and>
   decommissionedAt (kraken\<lparr>status := Decommissioned, decommissionedAt := Some 5000,
       updatedAt := 5000\<rparr>) = Some 5000 \<and>
   ENUM ''Decommissioned'' = Some Decommissioned \<and>
   (\<exists>g1 g2 s1. Update 5000 id1 (no_values\<lparr>v_status := Value ''Decommissioned''\<rparr>) inventory
                  = (Inr g1, s1) \<and>
      findByPk (gadgets s1) id1 = Inr (Some g2) \<and> status g1 = Decommissioned \<and>
      status g2 = Decommissioned \<and> decommissionedAt g2 = decommissionedAt g1 \<and>
      decommissionedAt g1 = Some 5000) \<and>
   findByPk (gadgets inventory) id3 = Inr (Some cipher) \<and>
   ENUM ''Deployed'' = Some Deployed \<and>
   (\<exists>g1 g2 s1. Update 6000 id3 (no_values\<lparr>v_status := Value ''Deployed''\<rparr>) inventory
                  = (Inr g1, s1) \<and>
      findByPk (gadgets s1) id3 = Inr (Some g2) \<and> status g1 = Deployed \<and>
      status g2 = Deployed \<and> decommissionedAt g2 = decommissionedAt g1 \<and>
      decommissionedAt g1 = None)"
proof -
  let ?vs = "no_values\<lparr>v_status := Value ''Decommissioned'', v_decommissionedAt := Null\<rparr>"
  let ?k = "kraken\<lparr>status := Decommissioned, decommissionedAt := Some 5000, updatedAt := 5000\<rparr>"
  have h1: "findByPk (gadgets inventory) id1 = Inr (Some kraken)"
    and h3: "findByPk (gadgets inventory) id3 = Inr (Some cipher)"
    by (rule inventory_rows)+
  have u1: "Update 5000 id1 ?vs inventory = (Inr ?k, inventory\<lparr>gadgets := [?k, viper, cipher]\<rparr>)"
    by (simp add: Update_def route_defs example_defs)
  have e: "ENUM ''Decommissioned'' = Some Decommissioned" "ENUM ''Deployed'' = Some Deployed"
    by simp_all
  have d: "decommissionedAt kraken = None" "decommissionedAt cipher = Some 4000"
    "status ?k = Decommissioned"
    by (simp_all add: example_defs)
  note a = Update_decommission_timestamp[OF h1, where now = 5000 and updates = ?vs and g' = ?k
      and s' = "inventory\<lparr>gadgets := [?k, viper, cipher]\<rparr>" and label = "''Decommissioned''"
      and st = Decommissioned]
  note b = Update_decommission_timestamp[OF h3, where now = 6000 and label = "''Deployed''"
      and st = Deployed]
  from a u1 d have 1: "decommissionedAt ?k = Some 5000" by simp
  from a e d have 2: "\<exists>g1 g2 s1. Update 5000 id1 (no_values\<lparr>v_status := Value ''Decommissioned''\<rparr>)
                  inventory = (Inr g1, s1) \<and>
      findByPk (gadgets s1) id1 = Inr (Some g2) \<and> status g1 = Decommissioned \<and>
      status g2 = Decommissioned \<and> decommissionedAt g2 = decommissionedAt g1 \<and>
      decommissionedAt g1 = Some 5000" by simp
  from b e d have 3: "\<exists>g1 g2 s1. Update 6000 id3 (no_values\<lparr>v_status := Value ''Deployed''\<rparr>)
                  inventory = (Inr g1, s1) \<and>
      findByPk (gadgets s1) id3 = Inr (Some g2) \<and> status g1 = Deployed \<and>
      status g2 = Deployed \<and> decommissionedAt g2 = decommissionedAt g1 \<and>
      decommissionedAt g1 = None" by simp
  show ?thesis by (intro conjI) (fact h1 h3 u1 e 1 2 3)+
qed

text \<open>
  The claim as the spec words it fails on the first gadget of the example, whose stored
  decommission timestamp is null: an Update at 9000 whose body sets the status
  Decommissioned and carries \<^verbatim>\<open>decommissionedAt: 5\<close> leaves the gadget Decommissioned with
  the timestamp 5, not the current time.
\<close>

theorem Update_decommission_timestamp_counterexample:
  "findByPk (gadgets inventory) id1 = Inr (Some kraken) \<and> decommissionedAt kraken = None \<and>
   Update 9000 id1 (no_values\<lparr>v_status := Value ''Decommissioned'', v_decommissionedAt := Value 5\<rparr>)
       inventory
     = (Inr (kraken\<lparr>status := Decommissioned, decommissionedAt := Some 5, updatedAt := 9000\<rparr>),
        inventory\<lparr>gadgets := [kraken\<lparr>status := Decommissioned, decommissionedAt := Some 5,
                                      updatedAt := 9000\<rparr>, viper, cipher]\<rparr>) \<and>
   decommissionedAt (kraken\<lparr>status := Decommissioned, decommissionedAt := Some 5,
                           updatedAt := 9000\<rparr>) \<noteq> Some 9000"
  by (simp add: Update_def route_defs example_defs)

text \<open>Entries for id, createdAt and updatedAt are not assigned. They count as attributes
  of the body, so with them the instance may carry the current time as \<^verbatim>\<open>updatedAt\<close>
  where it would not without them; nothing else depends on them.\<close>

lemma protected_entries:
  "valid_values (vs\<lparr>v_id := i, v_createdAt := c, v_updatedAt := u\<rparr>) = valid_values vs"
  "set_values (vs\<lparr>v_id := i, v_createdAt := c, v_updatedAt := u\<rparr>) g = set_values vs g"
  "changed now (vs\<lparr>v_id := i, v_createdAt := c, v_updatedAt := u\<rparr>) g = changed now vs g"
  by (simp_all add: valid_values_def set_values_def changed_def)

lemma Gadget_update_protected:
  assumes "Gadget_update now vs g rows = Inr (g', rows')"
  shows "\<exists>g2 rows2. Gadget_update now (vs\<lparr>v_id := i, v_createdAt := c, v_updatedAt := u\<rparr>) g rows
            = Inr (g2, rows2) \<and> g2\<lparr>updatedAt := updatedAt g'\<rparr> = g'"
  using assms unfolding Gadget_update_def Let_def protected_entries
  by (auto split: if_splits)

text \<open>
  Claim C7, as the code has it. An Update that goes through leaves the id and the
  creation time of the gadget as they were, whatever entries the body has for id,
  createdAt and updatedAt: with other entries for them the request still goes through
  and answers the same gadget up to \<^verbatim>\<open>updatedAt\<close>. It assigns the entries of the body for
  name, status and also decommissionedAt, and then applies the timestamp rule. The
  answer carries the current time as \<^verbatim>\<open>updatedAt\<close> when the body has an entry for any
  attribute. The row is written, from the answer, when an assignment or the rule
  changed an attribute, and is left as it was otherwise; so the stored \<^verbatim>\<open>updatedAt\<close> is
  the current time when the row is written and the body has an entry for an attribute,
  and is unchanged otherwise. Every other gadget and the pending codes are untouched.
\<close>

theorem Update_frame:
  assumes "findByPk (gadgets s) k = Inr (Some g)" and "Update now k updates s = (Inr g', s')"
  shows "gadget_id g' = gadget_id g \<and> createdAt g' = createdAt g \<and>
     name g' = (case v_name updates of Value nm \<Rightarrow> nm | _ \<Rightarrow> name g) \<and>
     (case v_status updates of Value txt \<Rightarrow> ENUM txt = Some (status g')
                              | _ \<Rightarrow> status g' = status g) \<and>
     decommissionedAt g' =
       (if status g' \<noteq> Decommissioned then None
        else case v_decommissionedAt updates of
               Absent \<Rightarrow> (case decommissionedAt g of None \<Rightarrow> Some now | Some d \<Rightarrow> Some d)
             | Null \<Rightarrow> Some now
             | Value d \<Rightarrow> Some d) \<and>
     updatedAt g' = (if has_attribute updates then now else updatedAt g) \<and>
     findByPk (gadgets s') k
       = Inr (Some (g'\<lparr>updatedAt := (if changed now updates g \<and> has_attribute updates
                                      then now else updatedAt g)\<rparr>)) \<and>
     (\<not> changed now updates g \<longrightarrow> gadgets s' = gadgets s) \<and>
     (u \<noteq> gadget_id g \<longrightarrow> find_row (gadgets s') u = find_row (gadgets s) u) \<and>
     pendingSelfDestructCodes s' = pendingSelfDestructCodes s \<and>
     (\<exists>g2 s2. Update now k (updates\<lparr>v_id := i, v_createdAt := c, v_updatedAt := t\<rparr>) s
                 = (Inr g2, s2) \<and> g2\<lparr>updatedAt := updatedAt g'\<rparr> = g')"
proof -
  from assms(2) obtain g0 rows' where g0: "findByPk (gadgets s) k = Inr (Some g0)"
    and upd: "Gadget_update now updates g0 (gadgets s) = Inr (g', rows')"
    and s': "s' = s\<lparr>gadgets := rows'\<rparr>"
    by (rule Update_Inr)
  from g0 assms(1) have [simp]: "g0 = g" by simp
  have valid: "valid_values updates"
    using upd by (cases rule: Gadget_update_cases) simp_all
  note f = Gadget_update_fields[OF upd, simplified]
  have "name g' = (case v_name updates of Value nm \<Rightarrow> nm | _ \<Rightarrow> name g)"
    using f(3) by (simp add: set_values_def)
  moreover have "(case v_status updates of Value txt \<Rightarrow> ENUM txt = Some (status g')
                              | _ \<Rightarrow> status g' = status g)"
    using f(4) valid by (auto simp: set_values_def valid_values_def split: entry.splits)
  moreover have "decommissionedAt g' =
       (if status g' \<noteq> Decommissioned then None
        else case v_decommissionedAt updates of
               Absent \<Rightarrow> (case decommissionedAt g of None \<Rightarrow> Some now | Some d \<Rightarrow> Some d)
             | Null \<Rightarrow> Some now
             | Value d \<Rightarrow> Some d)"
    unfolding f(4) f(5)
    by (auto simp: beforeUpdate_def decommissionedAt_set_values split: entry.splits option.splits)
  moreover have "findByPk (gadgets s') k
       = Inr (Some (g'\<lparr>updatedAt := (if changed now updates g \<and> has_attribute updates
                                      then now else updatedAt g)\<rparr>))"
  proof -
    note k = findByPk_Some[OF assms(1)]
    note st = Gadget_update_stored[OF upd[simplified] k(2)]
    have "(if changed now updates g then updatedAt g' else updatedAt g)
        = (if changed now updates g \<and> has_attribute updates then now else updatedAt g)"
      using f(6) by simp
    with st have "find_row rows' (gadget_id g)
        = Some (g'\<lparr>updatedAt := (if changed now updates g \<and> has_attribute updates
                                      then now else updatedAt g)\<rparr>)"
      by simp
    with k(1) s' show ?thesis by (simp add: findByPk_def)
  qed
  moreover have "gadgets s' = gadgets s" if "\<not> changed now updates g"
    using upd that s' by (cases rule: Gadget_update_cases) simp_all
  moreover have "find_row (gadgets s') u = find_row (gadgets s) u" if "u \<noteq> gadget_id g"
    using Gadget_update_find_row_other[OF upd, of u] that s' by simp
  moreover have "pendingSelfDestructCodes s' = pendingSelfDestructCodes s"
    using s' by simp
  moreover have "\<exists>g2 s2. Update now k (updates\<lparr>v_id := i, v_createdAt := c, v_updatedAt := t\<rparr>) s
                 = (Inr g2, s2) \<and> g2\<lparr>updatedAt := updatedAt g'\<rparr> = g'"
  proof -
    from Gadget_update_protected[OF upd, where i = i and c = c and u = t] obtain g2 rows2 where
      "Gadget_update now (updates\<lparr>v_id := i, v_createdAt := c, v_updatedAt := t\<rparr>) g (gadgets s)
            = Inr (g2, rows2)" "g2\<lparr>updatedAt := updatedAt g'\<rparr> = g'"
      by auto
    with Update_found[OF assms(1) this(1)] show ?thesis by blast
  qed
  ultimately show ?thesis
    using f(1,2,6) by simp
qed

theorem Update_frame_witness:
  "findByPk (gadgets inventory) id1 = Inr (Some kraken) \<and>
   Update 5000 id1 (no_values\<lparr>v_name := Value ''The Falcon'', v_status := Value ''Deployed'',
                               v_id := Value id5, v_createdAt := Value 0, v_updatedAt := Null\<rparr>)
       inventory
     = (Inr (kraken\<lparr>name := ''The Falcon'', status := Deployed, updatedAt := 5000\<rparr>),
        inventory\<lparr>gadgets := [kraken\<lparr>name := ''The Falcon'', status := Deployed,
                                      updatedAt := 5000\<rparr>, viper, cipher]\<rparr>) \<and>
   gadget_id (kraken\<lparr>name := ''The Falcon'', status := Deployed, updatedAt := 5000\<rparr>) = id1 \<and>
   createdAt (kraken\<lparr>name := ''The Falcon'', status := Deployed, updatedAt := 5000\<rparr>) = 1000 \<and>
   find_row (gadgets (inventory\<lparr>gadgets := [kraken\<lparr>name := ''The Falcon'', status := Deployed,
                                      updatedAt := 5000\<rparr>, viper, cipher]\<rparr>)) id2 = Some viper \<and>
   (\<exists>g2 s2. Update 5000 id1 (no_values\<lparr>v_name := Value ''The Falcon'',
                                        v_status := Value ''Deployed''\<rparr>) inventory
               = (Inr g2, s2) \<and>
            g2\<lparr>updatedAt := 5000\<rparr>
              = kraken\<lparr>name := ''The Falcon'', status := Deployed, updatedAt := 5000\<rparr>) \<and>
   findByPk (gadgets inventory) id3 = Inr (Some cipher) \<and>
   Update 9000 id3 (no_values\<lparr>v_updatedAt := Value 1\<rparr>) inventory
     = (Inr (cipher\<lparr>updatedAt := 9000\<rparr>), inventory) \<and>
   findByPk (gadgets inventory) id3 = Inr (Some ((cipher\<lparr>updatedAt := 9000\<rparr>)\<lparr>updatedAt := 4000\<rparr>))"
proof -
  let ?vs = "no_values\<lparr>v_name := Value ''The Falcon'', v_status := Value ''Deployed'',
                        v_id := Value id5, v_createdAt := Value 0, v_updatedAt := Null\<rparr>"
  let ?k = "kraken\<lparr>name := ''The Falcon'', status := Deployed, updatedAt := 5000\<rparr>"
  have h: "findByPk (gadgets inventory) id1 = Inr (Some kraken)"
    and h3: "findByPk (gadgets inventory) id3 = Inr (Some cipher)"
    by (rule inventory_rows)+
  have u: "Update 5000 id1 ?vs inventory = (Inr ?k, inventory\<lparr>gadgets := [?k, viper, cipher]\<rparr>)"
    by (simp add: Update_def route_defs example_defs)
  have u3: "Update 9000 id3 (no_values\<lparr>v_updatedAt := Value 1\<rparr>) inventory
     = (Inr (cipher\<lparr>updatedAt := 9000\<rparr>), inventory)"
    by (simp add: Update_def route_defs example_defs)
  have v: "find_row (gadgets inventory) id2 = Some viper"
    by (simp add: find_row_def example_defs ids_distinct)
  have c3: "\<not> changed 9000 (no_values\<lparr>v_updatedAt := Value 1\<rparr>) cipher"
    "updatedAt cipher = 4000"
    by (simp_all add: changed_def set_values_def beforeUpdate_def no_values_def cipher_def)
  have k: "gadget_id kraken = id1" "createdAt kraken = 1000" "id2 \<noteq> id1"
    by (simp_all add: kraken_def ids_distinct)
  note frame = Update_frame[OF h u, where u = id2 and i = Absent and c = Absent and t = Absent]
  note frame3 = Update_frame[OF h3 u3]
  from frame k have 1: "gadget_id ?k = id1" "createdAt ?k = 1000" by simp_all
  from frame k v have 2: "find_row (gadgets (inventory\<lparr>gadgets := [?k, viper, cipher]\<rparr>)) id2
      = Some viper" by simp
  from frame have 3: "\<exists>g2 s2. Update 5000 id1 (no_values\<lparr>v_name := Value ''The Falcon'',
                                        v_status := Value ''Deployed''\<rparr>) inventory
               = (Inr g2, s2) \<and> g2\<lparr>updatedAt := 5000\<rparr> = ?k"
    by (simp add: no_values_def)
  from frame3 c3 have 4:
    "findByPk (gadgets inventory) id3 = Inr (Some ((cipher\<lparr>updatedAt := 9000\<rparr>)\<lparr>updatedAt := 4000\<rparr>))"
    by simp
  show ?thesis by (intro conjI) (fact h h3 u u3 1 2 3 4)+
qed

text \<open>
  The claim as the spec words it fails on the third gadget of the example: a body with
  neither name nor status, only \<^verbatim>\<open>decommissionedAt: 5\<close>, moves the decommission timestamp
  from 4000 to 5 although the timestamp rule alone leaves the gadget as it is, and the
  write refreshes \<^verbatim>\<open>updatedAt\<close>, a field other than name, status and the decommission
  timestamp, from 4000 to 9000.
\<close>

theorem Update_frame_counterexample:
  "findByPk (gadgets inventory) id3 = Inr (Some cipher) \<and>
   v_name (no_values\<lparr>v_decommissionedAt := Value 5\<rparr>) = Absent \<and>
   v_status (no_values\<lparr>v_decommissionedAt := Value 5\<rparr>) = Absent \<and>
   beforeUpdate 9000 cipher = cipher \<and>
   Update 9000 id3 (no_values\<lparr>v_decommissionedAt := Value 5\<rparr>) inventory
     = (Inr (cipher\<lparr>decommissionedAt := Some 5, updatedAt := 9000\<rparr>),
        inventory\<lparr>gadgets := [kraken, viper,
                                 cipher\<lparr>decommissionedAt := Some 5, updatedAt := 9000\<rparr>]\<rparr>) \<and>
   decommissionedAt cipher = Some 4000 \<and> updatedAt cipher = 4000"
  by (simp add: Update_def route_defs example_defs)

text \<open>An entry that the hook resets is still a change: the row is written again, with
  the current time as \<^verbatim>\<open>updatedAt\<close>, although no other column moves.\<close>

lemma Update_reset_entry:
  "Update 9000 id1 (no_values\<lparr>v_decommissionedAt := Value 5\<rparr>) inventory
     = (Inr (kraken\<lparr>updatedAt := 9000\<rparr>),
        inventory\<lparr>gadgets := [kraken\<lparr>updatedAt := 9000\<rparr>, viper, cipher]\<rparr>)"
  by (simp add: Update_def route_defs example_defs)

text \<open>A body without any attribute changes nothing, and the answer is the row.\<close>

lemma Update_empty_body:
  "Update 9000 id1 no_values inventory = (Inr kraken, inventory)"
  by (simp add: Update_def route_defs example_defs)

section \<open>Facts about the other gadget routes\<close>

lemma findOne_name_None: "findOne_name rows nm = None \<longleftrightarrow> nm \<notin> name ` set rows"
  unfolding findOne_name_def by (induction rows) auto

lemma Create_Some:
  assumes "Create body uuid now random s = Some (res, s')"
  obtains (rejected) "res = Inl BadRequest" "s' = s"
  | (created) nm u where "generateUniqueCodename (gadgets s) random 0 = Some nm"
      "uuid_in uuid = Some u"
      "res = Inr \<lparr>gadget_id = u, name = nm, status = Available, decommissionedAt = None,
                  createdAt = now, updatedAt = now\<rparr>"
      "s' = s\<lparr>gadgets := gadgets s @ [\<lparr>gadget_id = u, name = nm, status = Available,
                  decommissionedAt = None, createdAt = now, updatedAt = now\<rparr>]\<rparr>"
      "\<not> (\<exists>r \<in> set (gadgets s). gadget_id r = u \<or> name r = nm)"
  using assms unfolding Create_def Gadget_create_def Let_def
  by (auto split: option.splits if_splits)


lemma Create_keeps_codes:
  assumes "Create body uuid now random s = Some (res, s')"
  shows "pendingSelfDestructCodes s' = pendingSelfDestructCodes s"
  using assms by (cases rule: Create_Some) simp_all


lemma destroy_accepted:
  "\<exists>g' rows'. Gadget_update now (no_values\<lparr>v_status := Value ''Destroyed''\<rparr>) g rows = Inr (g', rows')"
  by (rule status_accepted) simp

lemma destroy_fields:
  assumes "Gadget_update now (no_values\<lparr>v_status := Value ''Destroyed''\<rparr>) g rows = Inr (g', rows')"
  shows "status g' = Destroyed" "decommissionedAt g' = None" "name g' = name g"
  using Gadget_update_fields[OF assms]
  by (simp_all add: set_values_def no_values_def beforeUpdate_def)

text \<open>What the confirm route reads under the id, from what the object holds.\<close>

lemma js_get_own [simp]: "obj k = Some c \<Longrightarrow> js_get obj k = Own c"
  by (simp add: js_get_def)

lemma js_get_none:
  "obj k = None \<Longrightarrow> js_get obj k = (if k \<in> set Object_prototype then Inherited else Undefined)"
  by (simp add: js_get_def)

lemma js_set_uuid: "uuid_in k = Some u \<Longrightarrow> js_set obj k v = obj(k \<mapsto> v)"
  using uuid_not_inherited[of k u] by (auto simp: js_set_def Object_prototype_def)

text \<open>The five ways through the confirm route.\<close>

lemma Confirm_cases:
  obtains
    (nocode) "\<not> truthy (js_get (pendingSelfDestructCodes s) k)"
      "ConfirmSelfDestruct now k code s = (Inl BadRequest, s)"
  | (mismatch) "truthy (js_get (pendingSelfDestructCodes s) k)"
      "\<not> strict_equal code (js_get (pendingSelfDestructCodes s) k)"
      "ConfirmSelfDestruct now k code s = (Inl Forbidden, s)"
  | (refused) c where "pendingSelfDestructCodes s k = Some c" "c \<noteq> []" "code = JString c"
      "uuid_in k = None"
      "ConfirmSelfDestruct now k code s = (Inl BadRequest, s)"
  | (absent) c where "pendingSelfDestructCodes s k = Some c" "c \<noteq> []" "code = JString c"
      "findByPk (gadgets s) k = Inr None"
      "ConfirmSelfDestruct now k code s = (Inl NotFound, s)"
  | (destroyed) c g g' rows' where "pendingSelfDestructCodes s k = Some c" "c \<noteq> []"
      "code = JString c" "findByPk (gadgets s) k = Inr (Some g)"
      "Gadget_update now (no_values\<lparr>v_status := Value ''Destroyed''\<rparr>) g (gadgets s) = Inr (g', rows')"
      "ConfirmSelfDestruct now k code s =
         (Inr ''Gadget self-destructed'',
          s\<lparr>gadgets := rows', pendingSelfDestructCodes := (pendingSelfDestructCodes s)(k := None)\<rparr>)"
proof (cases "truthy (js_get (pendingSelfDestructCodes s) k)")
  case False
  then show ?thesis using nocode by (simp add: ConfirmSelfDestruct_def)
next
  case t: True
  show ?thesis
  proof (cases "strict_equal code (js_get (pendingSelfDestructCodes s) k)")
    case False
    with t show ?thesis using mismatch by (simp add: ConfirmSelfDestruct_def)
  next
    case e: True
    then obtain c where c: "js_get (pendingSelfDestructCodes s) k = Own c" "code = JString c"
      by (auto simp: strict_equal_def split: property.splits)
    then have own: "pendingSelfDestructCodes s k = Some c"
      by (auto simp: js_get_def split: option.splits if_splits)
    from t c have ne: "c \<noteq> []" by (simp add: truthy_def)
    show ?thesis
    proof (cases "findByPk (gadgets s) k")
      case (Inl err)
      then have "uuid_in k = None" by (auto simp: findByPk_def split: option.splits)
      with Inl t e show ?thesis using refused[OF own ne c(2)]
        by (simp add: ConfirmSelfDestruct_def)
    next
      case (Inr found)
      show ?thesis
      proof (cases found)
        case None
        with Inr t e show ?thesis using absent[OF own ne c(2)]
          by (simp add: ConfirmSelfDestruct_def)
      next
        case (Some g)
        obtain g' rows' where upd:
          "Gadget_update now (no_values\<lparr>v_status := Value ''Destroyed''\<rparr>) g (gadgets s) = Inr (g', rows')"
          using destroy_accepted by blast
        with Some Inr t e show ?thesis using destroyed[OF own ne c(2) _ upd]
          by (simp add: ConfirmSelfDestruct_def js_delete_def)
      qed
    qed
  qed
qed


section \<open>The status Destroyed\<close>


lemma length_nouns: "length nouns = 14"
  by (simp add: nouns_def)

lemma generateCodename_draws:
  "generateCodename draw_0 = ''The Nightingale''"
  "generateCodename draw_1_14 = ''The Kraken''"
  "generateCodename draw_3_14 = ''The Vortex''"
  unfolding generateCodename_def length_nouns floor_draws
  by (simp_all add: nouns_def)

lemmas create_defs = Create_def Gadget_create_def generateUniqueCodename.simps
  generateCodename_draws findOne_name_def example_defs Let_def uuid_in_ids ids_distinct

lemma inventory_Create:
  "Create JNull id4 9000 (\<lambda>i. if i = 0 then draw_1_14 else draw_0) inventory
     = Some (Inr \<lparr>gadget_id = id4, name = ''The Nightingale'', status = Available,
                   decommissionedAt = None, createdAt = 9000, updatedAt = 9000\<rparr>,
             inventory\<lparr>gadgets := [kraken, viper, cipher,
                 \<lparr>gadget_id = id4, name = ''The Nightingale'', status = Available,
                   decommissionedAt = None, createdAt = 9000, updatedAt = 9000\<rparr>]\<rparr>)"
  by (simp add: create_defs)



section \<open>GenerateSelfDestructCode\<close>

lemma is_code_nonempty: "is_code c \<Longrightarrow> c \<noteq> []"
  by (auto simp: is_code_def)

lemma pending_nonempty:
  "pending_codes_ok s \<Longrightarrow> pendingSelfDestructCodes s k = Some c \<Longrightarrow> c \<noteq> []"
  unfolding pending_codes_ok_def using is_code_nonempty by blast

lemma Generate_found:
  assumes "findByPk (gadgets s) k = Inr (Some g)"
  shows "GenerateSelfDestructCode r k s =
     (Inr (toString (Math_floor (multiply r 90000) + 10000)),
      s\<lparr>pendingSelfDestructCodes :=
           (pendingSelfDestructCodes s)(k \<mapsto> toString (Math_floor (multiply r 90000) + 10000))\<rparr>)"
  using assms js_set_uuid[OF findByPk_Some(1)[OF assms]]
  by (simp add: GenerateSelfDestructCode_def Let_def)




lemma inventory_Generate:
  "GenerateSelfDestructCode draw_half id1 inventory
     = (Inr ''55000'', inventory\<lparr>pendingSelfDestructCodes := [id1 \<mapsto> ''55000'']\<rparr>)"
  "GenerateSelfDestructCode draw_half id3 inventory
     = (Inr ''55000'',
        inventory\<lparr>pendingSelfDestructCodes := [id1 \<mapsto> ''12345'', id3 \<mapsto> ''55000'']\<rparr>)"
  by (subst Generate_found[OF inventory_rows(1)] Generate_found[OF inventory_rows(3)],
      simp add: floor_draws toString_55000 inventory_def)+



section \<open>ConfirmSelfDestruct\<close>

lemma Confirm_nocode:
  "pendingSelfDestructCodes s k = None \<Longrightarrow> k \<notin> set Object_prototype \<Longrightarrow>
     ConfirmSelfDestruct now k code s = (Inl BadRequest, s)"
  by (simp add: ConfirmSelfDestruct_def js_get_none truthy_def)

lemma Confirm_inherited:
  "pendingSelfDestructCodes s k = None \<Longrightarrow> k \<in> set Object_prototype \<Longrightarrow>
     ConfirmSelfDestruct now k code s = (Inl Forbidden, s)"
  by (simp add: ConfirmSelfDestruct_def js_get_none truthy_def strict_equal_def)

lemma Confirm_mismatch:
  "pendingSelfDestructCodes s k = Some c \<Longrightarrow> c \<noteq> [] \<Longrightarrow> code \<noteq> JString c \<Longrightarrow>
     ConfirmSelfDestruct now k code s = (Inl Forbidden, s)"
  by (simp add: ConfirmSelfDestruct_def truthy_def strict_equal_def)

lemma Confirm_absent:
  "pendingSelfDestructCodes s k = Some c \<Longrightarrow> c \<noteq> [] \<Longrightarrow> findByPk (gadgets s) k = Inr None \<Longrightarrow>
     ConfirmSelfDestruct now k (JString c) s = (Inl NotFound, s)"
  by (simp add: ConfirmSelfDestruct_def truthy_def strict_equal_def)

lemma Confirm_refused:
  "pendingSelfDestructCodes s k = Some c \<Longrightarrow> c \<noteq> [] \<Longrightarrow> uuid_in k = None \<Longrightarrow>
     ConfirmSelfDestruct now k (JString c) s = (Inl BadRequest, s)"
  by (simp add: ConfirmSelfDestruct_def truthy_def strict_equal_def findByPk_def)

lemma Confirm_destroys:
  assumes "pendingSelfDestructCodes s k = Some c" "c \<noteq> []"
    "findByPk (gadgets s) k = Inr (Some g)"
  shows "\<exists>g' rows'. ConfirmSelfDestruct now k (JString c) s =
           (Inr ''Gadget self-destructed'',
            s\<lparr>gadgets := rows',
              pendingSelfDestructCodes := (pendingSelfDestructCodes s)(k := None)\<rparr>) \<and>
         findByPk rows' k = Inr (Some g') \<and> status g' = Destroyed"
proof -
  obtain g' rows' where upd:
    "Gadget_update now (no_values\<lparr>v_status := Value ''Destroyed''\<rparr>) g (gadgets s) = Inr (g', rows')"
    using destroy_accepted by blast
  from Gadget_update_findByPk[OF upd assms(3)] obtain g'' where
    "findByPk rows' k = Inr (Some g'')" "status g'' = status g'"
    by (elim exE conjE)
  moreover have "status g' = Destroyed" using destroy_fields(1)[OF upd] .
  moreover have "ConfirmSelfDestruct now k (JString c) s =
           (Inr ''Gadget self-destructed'',
            s\<lparr>gadgets := rows',
              pendingSelfDestructCodes := (pendingSelfDestructCodes s)(k := None)\<rparr>)"
    using assms upd
    by (simp add: ConfirmSelfDestruct_def truthy_def strict_equal_def js_delete_def)
  ultimately show ?thesis by auto
qed

text \<open>
  Claim C1. The order of the checks is as the claim has it for every id that is not
  the name of a member of \<^verbatim>\<open>Object.prototype\<close>: in every state the routes keep, for such
  an id and every supplied code, ConfirmSelfDestruct answers BadRequest (400) when no
  code is pending for the id; otherwise Forbidden (403) when the supplied value is not
  the pending code; otherwise NotFound (404) when no gadget has the id (BadRequest when
  the database does not read the id as a UUID); the failures leave the state as it is.
  Otherwise it succeeds: the gadget is stored with status Destroyed, the entry of the id
  is removed from the pending codes, and a repeated confirm with the same code answers
  BadRequest.

  For an id that is the name of a member of \<^verbatim>\<open>Object.prototype\<close>, such as
  \<^verbatim>\<open>constructor\<close>, the route leaves that order: with no code pending for the id it reads
  the inherited member, takes it for a pending code, and answers Forbidden (403)
  whatever the supplied value is.
\<close>

theorem ConfirmSelfDestruct_order:
  assumes "pending_codes_ok s"
  shows
   "(pendingSelfDestructCodes s k = None \<and> k \<notin> set Object_prototype \<longrightarrow>
       ConfirmSelfDestruct now k code s = (Inl BadRequest, s)) \<and>
    (pendingSelfDestructCodes s k = None \<and> k \<in> set Object_prototype \<longrightarrow>
       ConfirmSelfDestruct now k code s = (Inl Forbidden, s)) \<and>
    (pendingSelfDestructCodes s k = Some c \<and> code \<noteq> JString c \<longrightarrow>
       ConfirmSelfDestruct now k code s = (Inl Forbidden, s)) \<and>
    (pendingSelfDestructCodes s k = Some c \<and> code = JString c \<and>
     findByPk (gadgets s) k = Inr None \<longrightarrow>
       ConfirmSelfDestruct now k code s = (Inl NotFound, s)) \<and>
    (pendingSelfDestructCodes s k = Some c \<and> code = JString c \<and> uuid_in k = None \<longrightarrow>
       ConfirmSelfDestruct now k code s = (Inl BadRequest, s)) \<and>
    (pendingSelfDestructCodes s k = Some c \<and> code = JString c \<and>
     findByPk (gadgets s) k = Inr (Some g) \<longrightarrow>
       (\<exists>g' s'. ConfirmSelfDestruct now k code s = (Inr ''Gadget self-destructed'', s') \<and>
          findByPk (gadgets s') k = Inr (Some g') \<and> status g' = Destroyed \<and>
          pendingSelfDestructCodes s' = (pendingSelfDestructCodes s)(k := None) \<and>
          ConfirmSelfDestruct now' k code s' = (Inl BadRequest, s'))) \<and>
    http_status BadRequest = 400 \<and> http_status Forbidden = 403 \<and> http_status NotFound = 404"
proof -
  have nonempty: "c \<noteq> []" if "pendingSelfDestructCodes s k = Some c"
    using pending_nonempty[OF assms that] .
  have "\<exists>g' s'. ConfirmSelfDestruct now k code s = (Inr ''Gadget self-destructed'', s') \<and>
          findByPk (gadgets s') k = Inr (Some g') \<and> status g' = Destroyed \<and>
          pendingSelfDestructCodes s' = (pendingSelfDestructCodes s)(k := None) \<and>
          ConfirmSelfDestruct now' k code s' = (Inl BadRequest, s')"
    if c: "pendingSelfDestructCodes s k = Some c" and code: "code = JString c"
      and g: "findByPk (gadgets s) k = Inr (Some g)"
  proof -
    obtain g' rows' where d: "ConfirmSelfDestruct now k (JString c) s =
           (Inr ''Gadget self-destructed'',
            s\<lparr>gadgets := rows',
              pendingSelfDestructCodes := (pendingSelfDestructCodes s)(k := None)\<rparr>)"
        "findByPk rows' k = Inr (Some g')" "status g' = Destroyed"
      using Confirm_destroys[OF c nonempty[OF c] g] by blast
    let ?s' = "s\<lparr>gadgets := rows',
              pendingSelfDestructCodes := (pendingSelfDestructCodes s)(k := None)\<rparr>"
    have "k \<notin> set Object_prototype"
      using uuid_not_inherited[OF findByPk_Some(1)[OF g]] .
    then have "ConfirmSelfDestruct now' k code ?s' = (Inl BadRequest, ?s')"
      by (intro Confirm_nocode) simp_all
    with d code show ?thesis by simp
  qed
  then show ?thesis
    using Confirm_nocode[of s k now code] Confirm_inherited[of s k now code]
      Confirm_mismatch[of s k c code now] Confirm_absent[of s k c now]
      Confirm_refused[of s k c now] nonempty
    by simp
qed

lemma inventory_ok: "pending_codes_ok inventory"
  by (auto simp: pending_codes_ok_def is_code_def inventory_def split: if_splits)

lemmas confirm_defs = ConfirmSelfDestruct_def js_get_def js_delete_def truthy_def
  strict_equal_def ids_not_inherited route_defs example_defs

theorem ConfirmSelfDestruct_order_witness:
  "pending_codes_ok inventory \<and>
   pending_codes_ok (inventory\<lparr>pendingSelfDestructCodes := [id4 \<mapsto> ''54321'']\<rparr>) \<and>
   pendingSelfDestructCodes inventory id2 = None \<and> id2 \<notin> set Object_prototype \<and>
   ConfirmSelfDestruct 9000 id2 (JString ''12345'') inventory = (Inl BadRequest, inventory) \<and>
   pendingSelfDestructCodes inventory ''constructor'' = None \<and>
   ''constructor'' \<in> set Object_prototype \<and>
   ConfirmSelfDestruct 9000 ''constructor'' (JString ''12345'') inventory
     = (Inl Forbidden, inventory) \<and>
   pendingSelfDestructCodes inventory id1 = Some ''12345'' \<and>
   ConfirmSelfDestruct 9000 id1 (JString ''12346'') inventory = (Inl Forbidden, inventory) \<and>
   ConfirmSelfDestruct 9000 id1 (JNumber 12345) inventory = (Inl Forbidden, inventory) \<and>
   findByPk (gadgets inventory) id4 = Inr None \<and>
   ConfirmSelfDestruct 9000 id4 (JString ''54321'')
       (inventory\<lparr>pendingSelfDestructCodes := [id4 \<mapsto> ''54321'']\<rparr>)
     = (Inl NotFound, inventory\<lparr>pendingSelfDestructCodes := [id4 \<mapsto> ''54321'']\<rparr>) \<and>
   findByPk (gadgets inventory) id1 = Inr (Some kraken) \<and>
   (\<exists>g' s'. ConfirmSelfDestruct 9000 id1 (JString ''12345'') inventory
               = (Inr ''Gadget self-destructed'', s') \<and>
      findByPk (gadgets s') id1 = Inr (Some g') \<and> status g' = Destroyed \<and>
      pendingSelfDestructCodes s' = (pendingSelfDestructCodes inventory)(id1 := None) \<and>
      ConfirmSelfDestruct 9001 id1 (JString ''12345'') s' = (Inl BadRequest, s'))"
proof -
  let ?orphan = "inventory\<lparr>pendingSelfDestructCodes := [id4 \<mapsto> ''54321'']\<rparr>"
  have ok: "pending_codes_ok inventory" by (rule inventory_ok)
  have ok4: "pending_codes_ok ?orphan"
    by (auto simp: pending_codes_ok_def is_code_def split: if_splits)
  have p: "pendingSelfDestructCodes inventory id2 = None"
      "pendingSelfDestructCodes inventory id1 = Some ''12345''"
      "pendingSelfDestructCodes inventory ''constructor'' = None"
      "pendingSelfDestructCodes ?orphan id4 = Some ''54321''"
    by (simp_all add: inventory_def ids_distinct) (simp add: id1_def)
  have m: "id2 \<notin> set Object_prototype" "''constructor'' \<in> set Object_prototype"
    by (simp_all add: ids_not_inherited) (simp add: Object_prototype_def)
  have f: "findByPk (gadgets inventory) id4 = Inr None"
      "findByPk (gadgets inventory) id1 = Inr (Some kraken)"
      "findByPk (gadgets ?orphan) id4 = Inr None"
    by (simp_all add: inventory_rows)
  note a = ConfirmSelfDestruct_order[OF ok, where k = id2 and code = "JString ''12345''"
      and now = 9000]
  note a' = ConfirmSelfDestruct_order[OF ok, where k = "''constructor''"
      and code = "JString ''12345''" and now = 9000]
  note b = ConfirmSelfDestruct_order[OF ok, where k = id1 and c = "''12345''"
      and code = "JString ''12346''" and now = 9000]
  note b' = ConfirmSelfDestruct_order[OF ok, where k = id1 and c = "''12345''"
      and code = "JNumber 12345" and now = 9000]
  note c = ConfirmSelfDestruct_order[OF ok4, where k = id4 and c = "''54321''"
      and code = "JString ''54321''" and now = 9000]
  note d = ConfirmSelfDestruct_order[OF ok, where k = id1 and c = "''12345''"
      and code = "JString ''12345''" and now = 9000 and now' = 9001 and g = kraken]
  from a p(1) m(1) have 1:
    "ConfirmSelfDestruct 9000 id2 (JString ''12345'') inventory = (Inl BadRequest, inventory)"
    by simp
  from a' p(3) m(2) have 2:
    "ConfirmSelfDestruct 9000 ''constructor'' (JString ''12345'') inventory
       = (Inl Forbidden, inventory)"
    by simp
  from b b' p(2) have 3:
    "ConfirmSelfDestruct 9000 id1 (JString ''12346'') inventory = (Inl Forbidden, inventory)"
    "ConfirmSelfDestruct 9000 id1 (JNumber 12345) inventory = (Inl Forbidden, inventory)"
    by simp_all
  from c p(4) f(3) have 4: "ConfirmSelfDestruct 9000 id4 (JString ''54321'') ?orphan
      = (Inl NotFound, ?orphan)"
    by simp
  from d p(2) f(2) have 5: "\<exists>g' s'. ConfirmSelfDestruct 9000 id1 (JString ''12345'') inventory
               = (Inr ''Gadget self-destructed'', s') \<and>
      findByPk (gadgets s') id1 = Inr (Some g') \<and> status g' = Destroyed \<and>
      pendingSelfDestructCodes s' = (pendingSelfDestructCodes inventory)(id1 := None) \<and>
      ConfirmSelfDestruct 9001 id1 (JString ''12345'') s' = (Inl BadRequest, s')"
    by simp
  show ?thesis by (intro conjI) (fact ok ok4 p(1,2,3) m f(1,2) 1 2 3 4 5)+
qed

subsection \<open>What the routes do to the pending codes\<close>

lemma Update_keeps_codes:
  "pendingSelfDestructCodes (snd (Update now k updates s)) = pendingSelfDestructCodes s"
  by (simp add: Update_def split: option.splits sum.splits)

lemma Decommission_keeps_codes:
  "pendingSelfDestructCodes (snd (Decommission now k s)) = pendingSelfDestructCodes s"
  by (simp add: Decommission_def split: option.splits sum.splits)

lemma Confirm_failed:
  assumes "fst (ConfirmSelfDestruct now k code s) = Inl e"
  shows "snd (ConfirmSelfDestruct now k code s) = s"
  using assms
  by (cases rule: Confirm_cases[where s = s and k = k and code = code and now = now]) simp_all

lemma Confirm_codes:
  "pendingSelfDestructCodes (snd (ConfirmSelfDestruct now k code s)) = pendingSelfDestructCodes s \<or>
   fst (ConfirmSelfDestruct now k code s) = Inr ''Gadget self-destructed'' \<and>
   pendingSelfDestructCodes (snd (ConfirmSelfDestruct now k code s))
     = (pendingSelfDestructCodes s)(k := None)"
  by (cases rule: Confirm_cases[where s = s and k = k and code = code and now = now]) simp_all

lemma Generate_codes:
  "pendingSelfDestructCodes (snd (GenerateSelfDestructCode r k s)) = pendingSelfDestructCodes s \<or>
   (\<exists>c. fst (GenerateSelfDestructCode r k s) = Inr c \<and>
        pendingSelfDestructCodes (snd (GenerateSelfDestructCode r k s))
          = (pendingSelfDestructCodes s)(k \<mapsto> c))"
proof (cases "findByPk (gadgets s) k")
  case (Inl e)
  then show ?thesis by (simp add: GenerateSelfDestructCode_def)
next
  case (Inr found)
  show ?thesis
  proof (cases found)
    case None
    with Inr show ?thesis by (simp add: GenerateSelfDestructCode_def)
  next
    case (Some g)
    with Inr show ?thesis by (simp add: Generate_found)
  qed
qed

lemma wrong_guesses:
  assumes "pendingSelfDestructCodes s k = Some c" "c \<noteq> []" "\<forall>w \<in> set guesses. w \<noteq> JString c"
  shows "sequential_confirms now k guesses s = (map (\<lambda>w. Inl Forbidden) guesses, s)"
  using assms(3)
proof (induction guesses)
  case Nil
  then show ?case by simp
next
  case (Cons w guesses)
  then have "ConfirmSelfDestruct now k w s = (Inl Forbidden, s)"
    using Confirm_mismatch[OF assms(1,2)] by simp
  with Cons show ?case by simp
qed

subsection \<open>The pending codes are well formed\<close>

text \<open>The invariant holds when the process starts, with an empty object, and every route
  keeps it.\<close>

lemma pending_codes_ok_start:
  "pending_codes_ok \<lparr>gadgets = rows, pendingSelfDestructCodes = Map.empty\<rparr>"
  by (simp add: pending_codes_ok_def)

lemma pending_codes_ok_cong:
  "pendingSelfDestructCodes s' = pendingSelfDestructCodes s \<Longrightarrow> pending_codes_ok s \<Longrightarrow>
     pending_codes_ok s'"
  by (simp add: pending_codes_ok_def)

lemma pending_codes_ok_Generate:
  assumes "pending_codes_ok s" "random_ok r"
  shows "pending_codes_ok (snd (GenerateSelfDestructCode r k s))"
proof (cases "findByPk (gadgets s) k = Inr (Some (the (projr (findByPk (gadgets s) k))))")
  case True
  have "is_code (toString (Math_floor (multiply r 90000) + 10000))"
    using code_range[OF assms(2)] by (rule toString_is_code)
  then show ?thesis
    using assms(1) Generate_found[OF True, of r] by (auto simp: pending_codes_ok_def)
next
  case False
  then have "snd (GenerateSelfDestructCode r k s) = s"
    by (auto simp: GenerateSelfDestructCode_def split: sum.splits option.splits)
  with assms(1) show ?thesis by simp
qed

lemma pending_codes_ok_Confirm:
  assumes "pending_codes_ok s"
  shows "pending_codes_ok (snd (ConfirmSelfDestruct now k code s))"
  using assms Confirm_codes[of now k code s]
  by (auto simp: pending_codes_ok_def split: if_splits)

lemma pending_codes_ok_Update:
  "pending_codes_ok s \<Longrightarrow> pending_codes_ok (snd (Update now k updates s))"
  by (rule pending_codes_ok_cong[OF Update_keeps_codes])

lemma pending_codes_ok_Decommission:
  "pending_codes_ok s \<Longrightarrow> pending_codes_ok (snd (Decommission now k s))"
  by (rule pending_codes_ok_cong[OF Decommission_keeps_codes])

lemma pending_codes_ok_Create:
  "Create body uuid now random s = Some (res, s') \<Longrightarrow> pending_codes_ok s \<Longrightarrow> pending_codes_ok s'"
  by (rule pending_codes_ok_cong[OF Create_keeps_codes])



text \<open>
  Claim C10. A confirm that answers Forbidden or NotFound returns the state it was given,
  so the pending code stays in place. Any number of wrong guesses for a gadget with a
  pending code are all answered Forbidden and leave the state unchanged, and a confirm with
  the right code after them succeeds. The entry of an id changes only by a successful
  confirm for that id, which removes it, or by a generate-code call for that id, which
  replaces it: Update, Decommission and Create never touch the pending codes.
\<close>

theorem failed_confirm_keeps_code:
  assumes "pending_codes_ok s"
  shows
   "(fst (ConfirmSelfDestruct now k code s) = Inl Forbidden \<or>
     fst (ConfirmSelfDestruct now k code s) = Inl NotFound
       \<longrightarrow> snd (ConfirmSelfDestruct now k code s) = s) \<and>
    (pendingSelfDestructCodes s k = Some c \<and> findByPk (gadgets s) k = Inr (Some g) \<and>
     (\<forall>w \<in> set guesses. w \<noteq> JString c)
       \<longrightarrow> sequential_confirms now k guesses s = (map (\<lambda>w. Inl Forbidden) guesses, s) \<and>
           (\<exists>g' s'. ConfirmSelfDestruct now k (JString c)
                       (snd (sequential_confirms now k guesses s))
                     = (Inr ''Gadget self-destructed'', s') \<and>
                    findByPk (gadgets s') k = Inr (Some g') \<and> status g' = Destroyed \<and>
                    pendingSelfDestructCodes s' k = None)) \<and>
    (pendingSelfDestructCodes (snd (ConfirmSelfDestruct now k' code s)) k
       \<noteq> pendingSelfDestructCodes s k
       \<longrightarrow> k' = k \<and> fst (ConfirmSelfDestruct now k' code s) = Inr ''Gadget self-destructed'' \<and>
           pendingSelfDestructCodes (snd (ConfirmSelfDestruct now k' code s)) k = None) \<and>
    (pendingSelfDestructCodes (snd (GenerateSelfDestructCode r k' s)) k
       \<noteq> pendingSelfDestructCodes s k
       \<longrightarrow> k' = k \<and>
           (\<exists>c'. fst (GenerateSelfDestructCode r k' s) = Inr c' \<and>
                 pendingSelfDestructCodes (snd (GenerateSelfDestructCode r k' s)) k = Some c')) \<and>
    pendingSelfDestructCodes (snd (Update now k' updates s)) = pendingSelfDestructCodes s \<and>
    pendingSelfDestructCodes (snd (Decommission now k' s)) = pendingSelfDestructCodes s \<and>
    (Create body uuid now random s = Some (res, s')
       \<longrightarrow> pendingSelfDestructCodes s' = pendingSelfDestructCodes s)"
proof -
  have 1: "snd (ConfirmSelfDestruct now k code s) = s"
    if "fst (ConfirmSelfDestruct now k code s) = Inl Forbidden \<or>
        fst (ConfirmSelfDestruct now k code s) = Inl NotFound"
    using that Confirm_failed[of now k code s] by auto
  have 2: "sequential_confirms now k guesses s = (map (\<lambda>w. Inl Forbidden) guesses, s) \<and>
           (\<exists>g' s'. ConfirmSelfDestruct now k (JString c)
                       (snd (sequential_confirms now k guesses s))
                     = (Inr ''Gadget self-destructed'', s') \<and>
                    findByPk (gadgets s') k = Inr (Some g') \<and> status g' = Destroyed \<and>
                    pendingSelfDestructCodes s' k = None)"
    if c: "pendingSelfDestructCodes s k = Some c" and g: "findByPk (gadgets s) k = Inr (Some g)"
      and w: "\<forall>w \<in> set guesses. w \<noteq> JString c"
  proof -
    have ne: "c \<noteq> []" using pending_nonempty[OF assms c] .
    have run: "sequential_confirms now k guesses s = (map (\<lambda>w. Inl Forbidden) guesses, s)"
      using wrong_guesses[OF c ne w] .
    obtain g' rows' where "ConfirmSelfDestruct now k (JString c) s =
           (Inr ''Gadget self-destructed'',
            s\<lparr>gadgets := rows',
              pendingSelfDestructCodes := (pendingSelfDestructCodes s)(k := None)\<rparr>)"
        "findByPk rows' k = Inr (Some g')" "status g' = Destroyed"
      using Confirm_destroys[OF c ne g] by blast
    with run show ?thesis by simp
  qed
  have 3: "k' = k \<and> fst (ConfirmSelfDestruct now k' code s) = Inr ''Gadget self-destructed'' \<and>
           pendingSelfDestructCodes (snd (ConfirmSelfDestruct now k' code s)) k = None"
    if "pendingSelfDestructCodes (snd (ConfirmSelfDestruct now k' code s)) k
          \<noteq> pendingSelfDestructCodes s k"
    using that Confirm_codes[of now k' code s] by (auto split: if_splits)
  have 4: "k' = k \<and>
           (\<exists>c'. fst (GenerateSelfDestructCode r k' s) = Inr c' \<and>
                 pendingSelfDestructCodes (snd (GenerateSelfDestructCode r k' s)) k = Some c')"
    if "pendingSelfDestructCodes (snd (GenerateSelfDestructCode r k' s)) k
          \<noteq> pendingSelfDestructCodes s k"
    using that Generate_codes[of r k' s] by (auto split: if_splits)
  have 5: "pendingSelfDestructCodes s' = pendingSelfDestructCodes s"
    if "Create body uuid now random s = Some (res, s')"
    using Create_keeps_codes[OF that] .
  from 1 2 3 4 5 show ?thesis
    by (simp only: Update_keeps_codes Decommission_keeps_codes) blast
qed

theorem failed_confirm_keeps_code_witness:
  "pending_codes_ok inventory \<and>
   pending_codes_ok (inventory\<lparr>pendingSelfDestructCodes := [id4 \<mapsto> ''54321'']\<rparr>) \<and>
   fst (ConfirmSelfDestruct 9000 id1 (JString ''00000'') inventory) = Inl Forbidden \<and>
   snd (ConfirmSelfDestruct 9000 id1 (JString ''00000'') inventory) = inventory \<and>
   fst (ConfirmSelfDestruct 9000 id4 (JString ''54321'')
          (inventory\<lparr>pendingSelfDestructCodes := [id4 \<mapsto> ''54321'']\<rparr>)) = Inl NotFound \<and>
   snd (ConfirmSelfDestruct 9000 id4 (JString ''54321'')
          (inventory\<lparr>pendingSelfDestructCodes := [id4 \<mapsto> ''54321'']\<rparr>))
     = inventory\<lparr>pendingSelfDestructCodes := [id4 \<mapsto> ''54321'']\<rparr> \<and>
   pendingSelfDestructCodes inventory id1 = Some ''12345'' \<and>
   findByPk (gadgets inventory) id1 = Inr (Some kraken) \<and>
   sequential_confirms 9000 id1 [JString ''00000'', JNumber 12345, JNull, JString ''1234'']
       inventory
     = ([Inl Forbidden, Inl Forbidden, Inl Forbidden, Inl Forbidden], inventory) \<and>
   (\<exists>g' s'. ConfirmSelfDestruct 9000 id1 (JString ''12345'')
               (snd (sequential_confirms 9000 id1
                  [JString ''00000'', JNumber 12345, JNull, JString ''1234''] inventory))
             = (Inr ''Gadget self-destructed'', s') \<and>
            findByPk (gadgets s') id1 = Inr (Some g') \<and> status g' = Destroyed \<and>
            pendingSelfDestructCodes s' id1 = None) \<and>
   fst (ConfirmSelfDestruct 9000 id1 (JString ''12345'') inventory)
     = Inr ''Gadget self-destructed'' \<and>
   pendingSelfDestructCodes (snd (ConfirmSelfDestruct 9000 id1 (JString ''12345'') inventory)) id1
     = None \<and>
   fst (GenerateSelfDestructCode draw_half id1 inventory) = Inr ''55000'' \<and>
   pendingSelfDestructCodes (snd (GenerateSelfDestructCode draw_half id1 inventory)) id1
     = Some ''55000'' \<and>
   pendingSelfDestructCodes (snd (Update 9000 id1 (no_values\<lparr>v_status := Value ''Deployed''\<rparr>)
       inventory)) = pendingSelfDestructCodes inventory \<and>
   pendingSelfDestructCodes (snd (Decommission 9000 id1 inventory))
     = pendingSelfDestructCodes inventory \<and>
   pendingSelfDestructCodes (inventory\<lparr>gadgets := [kraken, viper, cipher,
                 \<lparr>gadget_id = id4, name = ''The Nightingale'', status = Available,
                   decommissionedAt = None, createdAt = 9000, updatedAt = 9000\<rparr>]\<rparr>)
     = pendingSelfDestructCodes inventory"
proof -
  let ?orphan = "inventory\<lparr>pendingSelfDestructCodes := [id4 \<mapsto> ''54321'']\<rparr>"
  let ?guesses = "[JString ''00000'', JNumber 12345, JNull, JString ''1234'']"
  let ?R = "\<lambda>i::nat. if i = 0 then draw_1_14 else draw_0"
  have ok: "pending_codes_ok inventory" by (rule inventory_ok)
  have ok4: "pending_codes_ok ?orphan"
    by (auto simp: pending_codes_ok_def is_code_def split: if_splits)
  have f: "fst (ConfirmSelfDestruct 9000 id1 (JString ''00000'') inventory) = Inl Forbidden"
      "fst (ConfirmSelfDestruct 9000 id4 (JString ''54321'') ?orphan) = Inl NotFound"
    by (simp_all add: confirm_defs)
  have p: "pendingSelfDestructCodes inventory id1 = Some ''12345''"
      "findByPk (gadgets inventory) id1 = Inr (Some kraken)"
      "\<forall>w \<in> set ?guesses. w \<noteq> JString ''12345''"
    by (simp_all add: inventory_rows) (simp add: inventory_def)
  have ch: "pendingSelfDestructCodes (snd (ConfirmSelfDestruct 9000 id1 (JString ''12345'') inventory)) id1
      \<noteq> pendingSelfDestructCodes inventory id1"
    by (simp add: confirm_defs)
  note gen = inventory_Generate(1)
  note a = failed_confirm_keeps_code[OF ok, where now = 9000 and k = id1
      and code = "JString ''00000''" and c = "''12345''" and g = kraken and guesses = ?guesses
      and k' = id1 and r = draw_half and updates = "no_values\<lparr>v_status := Value ''Deployed''\<rparr>"
      and body = JNull and uuid = id4 and random = ?R
      and res = "Inr \<lparr>gadget_id = id4, name = ''The Nightingale'', status = Available,
                   decommissionedAt = None, createdAt = 9000, updatedAt = 9000\<rparr>"
      and s' = "inventory\<lparr>gadgets := [kraken, viper, cipher,
                 \<lparr>gadget_id = id4, name = ''The Nightingale'', status = Available,
                   decommissionedAt = None, createdAt = 9000, updatedAt = 9000\<rparr>]\<rparr>"]
  note b = failed_confirm_keeps_code[OF ok4, where now = 9000 and k = id4
      and code = "JString ''54321''" and body = JNull]
  note c = failed_confirm_keeps_code[OF ok, where now = 9000 and k = id1 and k' = id1
      and code = "JString ''12345''" and body = JNull]
  from a f(1) have 1: "snd (ConfirmSelfDestruct 9000 id1 (JString ''00000'') inventory) = inventory"
    by blast
  from b f(2) have 2: "snd (ConfirmSelfDestruct 9000 id4 (JString ''54321'') ?orphan) = ?orphan"
    by blast
  from a p have 3: "sequential_confirms 9000 id1 ?guesses inventory
       = (map (\<lambda>w. Inl Forbidden) ?guesses, inventory)"
     "\<exists>g' s'. ConfirmSelfDestruct 9000 id1 (JString ''12345'')
               (snd (sequential_confirms 9000 id1 ?guesses inventory))
             = (Inr ''Gadget self-destructed'', s') \<and>
            findByPk (gadgets s') id1 = Inr (Some g') \<and> status g' = Destroyed \<and>
            pendingSelfDestructCodes s' id1 = None"
    by blast+
  have seq: "sequential_confirms 9000 id1 ?guesses inventory
       = ([Inl Forbidden, Inl Forbidden, Inl Forbidden, Inl Forbidden], inventory)"
    unfolding 3(1) by simp
  from c ch have 4:
    "fst (ConfirmSelfDestruct 9000 id1 (JString ''12345'') inventory) = Inr ''Gadget self-destructed''"
    "pendingSelfDestructCodes (snd (ConfirmSelfDestruct 9000 id1 (JString ''12345'') inventory)) id1
       = None"
    by blast+
  from gen have 5: "fst (GenerateSelfDestructCode draw_half id1 inventory) = Inr ''55000''"
    "pendingSelfDestructCodes (snd (GenerateSelfDestructCode draw_half id1 inventory)) id1
       = Some ''55000''"
    by simp_all
  from a have 6: "pendingSelfDestructCodes (snd (Update 9000 id1
        (no_values\<lparr>v_status := Value ''Deployed''\<rparr>) inventory))
      = pendingSelfDestructCodes inventory"
    "pendingSelfDestructCodes (snd (Decommission 9000 id1 inventory))
      = pendingSelfDestructCodes inventory"
    by blast+
  from a inventory_Create have 7: "pendingSelfDestructCodes (inventory\<lparr>gadgets := [kraken, viper, cipher,
                 \<lparr>gadget_id = id4, name = ''The Nightingale'', status = Available,
                   decommissionedAt = None, createdAt = 9000, updatedAt = 9000\<rparr>]\<rparr>)
     = pendingSelfDestructCodes inventory"
    by blast
  show ?thesis
    by (intro conjI) (fact ok ok4 f p(1,2) 1 2 seq 3(2) 4 5 6 7)+
qed

section \<open>Create\<close>

lemma generateCodename_form:
  assumes "random_ok r"
  shows "\<exists>noun \<in> set nouns. generateCodename r = ''The '' @ noun"
proof -
  let ?i = "Math_floor (multiply r (length nouns))"
  have "0 < length nouns" by (simp add: length_nouns)
  from floor_times_less[OF assms this] have lo: "0 \<le> ?i" and "?i < int (length nouns)" .
  then have hi: "nat ?i < length nouns" by linarith
  then have "nouns ! nat ?i \<in> set nouns" by (rule nth_mem)
  moreover have "generateCodename r = ''The '' @ nouns ! nat ?i"
    using lo hi by (simp add: generateCodename_def Let_def)
  ultimately show ?thesis by blast
qed

text \<open>What the loop returns is the codename of a draw, free in the table, and every
  earlier draw of the call gave a codename already in use.\<close>

lemma generateUniqueCodename_Some:
  assumes "generateUniqueCodename rows random i = Some nm"
  shows "\<exists>j\<ge>i. nm = generateCodename (random j) \<and> findOne_name rows nm = None \<and>
           (\<forall>l. i \<le> l \<and> l < j \<longrightarrow> findOne_name rows (generateCodename (random l)) \<noteq> None)"
  using assms
proof (induction rule: generateUniqueCodename.raw_induct[rotated 1, consumes 1])
  case (1 loop rows random i nm)
  show ?case
  proof (cases "findOne_name rows (generateCodename (random i)) = None")
    case True
    with 1(2) have "nm = generateCodename (random i)" by (simp add: Let_def)
    with True show ?thesis by (intro exI[of _ i]) auto
  next
    case False
    with 1(2) have "loop rows random (Suc i) = Some nm" by (simp add: Let_def)
    from 1(1)[OF this] obtain j where j: "Suc i \<le> j" "nm = generateCodename (random j)"
      "findOne_name rows nm = None"
      "\<forall>l. Suc i \<le> l \<and> l < j \<longrightarrow> findOne_name rows (generateCodename (random l)) \<noteq> None"
      by (elim exE conjE)
    have "findOne_name rows (generateCodename (random l)) \<noteq> None" if "i \<le> l" "l < j" for l
    proof (cases "l = i")
      case True
      with False show ?thesis by simp
    next
      case False
      with that have "Suc i \<le> l \<and> l < j" by simp
      with j(4) show ?thesis by blast
    qed
    moreover from j(1) have "i \<le> j" by simp
    ultimately show ?thesis using j(2,3) by (intro exI[of _ j]) simp
  qed
qed

text \<open>The loop returns the codename of the first draw that gives a free one, after a
  retry for each draw before it.\<close>

lemma generateUniqueCodename_first:
  assumes "findOne_name rows (generateCodename (random (i + n))) = None"
    and "\<forall>l. i \<le> l \<and> l < i + n \<longrightarrow> findOne_name rows (generateCodename (random l)) \<noteq> None"
  shows "generateUniqueCodename rows random i = Some (generateCodename (random (i + n)))"
  using assms
proof (induction n arbitrary: i)
  case 0
  then show ?case by (subst generateUniqueCodename.simps) (simp add: Let_def)
next
  case (Suc n)
  from Suc.prems(2) have taken: "findOne_name rows (generateCodename (random i)) \<noteq> None"
    by simp
  have "generateUniqueCodename rows random (Suc i)
      = Some (generateCodename (random (Suc i + n)))"
    using Suc.prems by (intro Suc.IH) simp_all
  with taken show ?case by (subst generateUniqueCodename.simps) (simp add: Let_def)
qed

text \<open>When no draw ever gives a free codename the loop does not return.\<close>

lemma generateUniqueCodename_diverges:
  assumes "\<forall>j. findOne_name rows (generateCodename (random j)) \<noteq> None"
  shows "generateUniqueCodename rows random i = None"
proof (cases "generateUniqueCodename rows random i")
  case (Some nm)
  from generateUniqueCodename_Some[OF Some] obtain j where
    "nm = generateCodename (random j)" "findOne_name rows nm = None"
    by (elim exE conjE)
  moreover from assms have "findOne_name rows (generateCodename (random j)) \<noteq> None" by blast
  ultimately show ?thesis by simp
qed simp

lemma Create_body_ignored:
  "Create body uuid now random s = Create body' uuid now random s"
  by (simp add: Create_def)

lemma Create_created:
  assumes "Create body uuid now random s = Some (Inr gadget, s')"
  shows "generateUniqueCodename (gadgets s) random 0 = Some (name gadget)"
    "uuid_in uuid = Some (gadget_id gadget)"
    "status gadget = Available" "decommissionedAt gadget = None"
    "createdAt gadget = now" "updatedAt gadget = now"
    "gadgets s' = gadgets s @ [gadget]"
  using assms by (cases rule: Create_Some; simp)+

lemma Create_names:
  assumes "Create body uuid now random s = Some (res, s')"
  shows "name ` set (gadgets s) \<subseteq> name ` set (gadgets s')"
  using assms by (cases rule: Create_Some) auto

text \<open>Create answers with the gadget of the first free codename, appended to the table,
  when the generated id is new.\<close>

lemma Create_first_free:
  assumes "generateCodename (random j) \<notin> name ` set (gadgets s)"
    and "\<forall>l<j. generateCodename (random l) \<in> name ` set (gadgets s)"
    and "uuid_in uuid = Some u" and "u \<notin> gadget_id ` set (gadgets s)"
  shows "Create body uuid now random s
     = Some (Inr \<lparr>gadget_id = u, name = generateCodename (random j), status = Available,
                   decommissionedAt = None, createdAt = now, updatedAt = now\<rparr>,
             s\<lparr>gadgets := gadgets s @
                 [\<lparr>gadget_id = u, name = generateCodename (random j), status = Available,
                   decommissionedAt = None, createdAt = now, updatedAt = now\<rparr>]\<rparr>)"
proof -
  have "generateUniqueCodename (gadgets s) random 0 = Some (generateCodename (random (0 + j)))"
    using assms(1,2) by (intro generateUniqueCodename_first) (simp_all add: findOne_name_None)
  then show ?thesis
    using assms(1,3,4) by (auto simp: Create_def Gadget_create_def Let_def image_iff)
qed

text \<open>With no draw that gives a free codename, POST /gadgets never answers.\<close>

lemma Create_never_answers:
  assumes "\<forall>j. generateCodename (random j) \<in> name ` set (gadgets s)"
  shows "Create body uuid now random s = None"
proof -
  have "generateUniqueCodename (gadgets s) random 0 = None"
    using assms by (intro generateUniqueCodename_diverges) (simp add: findOne_name_None)
  then show ?thesis by (simp add: Create_def)
qed

lemma sequential_creates_distinct:
  assumes "sequential_creates reqs s = Some (created, s')"
  shows "distinct (map name created) \<and> name ` set created \<inter> name ` set (gadgets s) = {}"
  using assms
proof (induction reqs arbitrary: s created)
  case Nil
  then show ?case by simp
next
  case (Cons req reqs)
  obtain body uuid now random where req: "req = (body, uuid, now, random)"
    by (cases req) auto
  from Cons.prems obtain res s1 where c: "Create body uuid now random s = Some (res, s1)"
    unfolding req by (auto split: option.splits)
  note mono = Create_names[OF c]
  show ?case
  proof (cases res)
    case (Inl e)
    with Cons.prems c have "sequential_creates reqs s1 = Some (created, s')"
      unfolding req by simp
    from Cons.IH[OF this] mono show ?thesis by auto
  next
    case (Inr gadget)
    with Cons.prems c obtain rest where rest: "sequential_creates reqs s1 = Some (rest, s')"
      and created: "created = gadget # rest"
      unfolding req by (auto split: option.splits)
    from c Inr have c': "Create body uuid now random s = Some (Inr gadget, s1)" by simp
    have g: "generateUniqueCodename (gadgets s) random 0 = Some (name gadget)"
      "gadgets s1 = gadgets s @ [gadget]"
      using Create_created(1,7)[OF c'] .
    from generateUniqueCodename_Some[OF g(1)] have fresh: "name gadget \<notin> name ` set (gadgets s)"
      by (auto simp: findOne_name_None)
    from Cons.IH[OF rest] have ih: "distinct (map name rest)"
      "name ` set rest \<inter> name ` set (gadgets s1) = {}" by simp_all
    from ih(2) g(2) have "name gadget \<notin> name ` set rest" by auto
    moreover from ih(2) mono have "name ` set rest \<inter> name ` set (gadgets s) = {}" by blast
    ultimately show ?thesis using ih(1) fresh unfolding created by auto
  qed
qed

text \<open>
  Claim C5. Create does not depend on the request body. It draws codenames until one is
  the name of no gadget of the repository: when the draw \<open>j\<close> is the first whose codename
  is free, and the generated id is new, Create answers with the gadget that has this
  id, the codename of draw \<open>j\<close>, status Available and no decommission timestamp, and the
  table is the table before with this gadget appended; when no draw ever gives a free
  codename, Create never answers. The codename of every draw is "The " followed by a
  noun of the vocabulary. Whenever Create answers with a gadget, the gadget is of that
  kind: its name is the codename of the first free draw and differs from the name of
  every gadget that was there. Hence the gadgets that a run of successive Create calls
  returns have pairwise distinct names, all different from the names there before the
  run.
\<close>

theorem Create_unique_codename:
  "(generateCodename (random j) \<notin> name ` set (gadgets s) \<and>
    (\<forall>l<j. generateCodename (random l) \<in> name ` set (gadgets s)) \<and>
    uuid_in uuid = Some u \<and> u \<notin> gadget_id ` set (gadgets s) \<longrightarrow>
      Create body uuid now random s
        = Some (Inr \<lparr>gadget_id = u, name = generateCodename (random j), status = Available,
                      decommissionedAt = None, createdAt = now, updatedAt = now\<rparr>,
                s\<lparr>gadgets := gadgets s @
                    [\<lparr>gadget_id = u, name = generateCodename (random j), status = Available,
                      decommissionedAt = None, createdAt = now, updatedAt = now\<rparr>]\<rparr>)) \<and>
   ((\<forall>j. generateCodename (random j) \<in> name ` set (gadgets s)) \<longrightarrow>
      Create body uuid now random s = None) \<and>
   (random_ok r \<longrightarrow> (\<exists>noun \<in> set nouns. generateCodename r = ''The '' @ noun)) \<and>
   (Create body uuid now random s = Some (Inr gadget, s') \<and> (\<forall>i. random_ok (random i)) \<longrightarrow>
      (\<exists>noun \<in> set nouns. name gadget = ''The '' @ noun) \<and>
      (\<exists>j. name gadget = generateCodename (random j) \<and>
           (\<forall>l<j. generateCodename (random l) \<in> name ` set (gadgets s))) \<and>
      name gadget \<notin> name ` set (gadgets s) \<and>
      status gadget = Available \<and> uuid_in uuid = Some (gadget_id gadget) \<and>
      decommissionedAt gadget = None \<and>
      gadgets s' = gadgets s @ [gadget]) \<and>
   Create body uuid now random s = Create body' uuid now random s \<and>
   (sequential_creates reqs s = Some (created, s'') \<longrightarrow>
      distinct (map name created) \<and> name ` set created \<inter> name ` set (gadgets s) = {})"
proof -
  have 1: "(\<exists>noun \<in> set nouns. name gadget = ''The '' @ noun) \<and>
      (\<exists>j. name gadget = generateCodename (random j) \<and>
           (\<forall>l<j. generateCodename (random l) \<in> name ` set (gadgets s))) \<and>
      name gadget \<notin> name ` set (gadgets s) \<and>
      status gadget = Available \<and> uuid_in uuid = Some (gadget_id gadget) \<and>
      decommissionedAt gadget = None \<and>
      gadgets s' = gadgets s @ [gadget]"
    if c: "Create body uuid now random s = Some (Inr gadget, s')"
      and r: "\<forall>i. random_ok (random i)"
  proof -
    note cr = Create_created[OF c]
    from generateUniqueCodename_Some[OF cr(1)] obtain j where
      j: "name gadget = generateCodename (random j)" "findOne_name (gadgets s) (name gadget) = None"
        "\<forall>l. 0 \<le> l \<and> l < j \<longrightarrow> findOne_name (gadgets s) (generateCodename (random l)) \<noteq> None"
      by (elim exE conjE)
    from r have "\<exists>noun \<in> set nouns. generateCodename (random j) = ''The '' @ noun"
      by (intro generateCodename_form) auto
    with j(1) have "\<exists>noun \<in> set nouns. name gadget = ''The '' @ noun" by simp
    moreover from j(3) have "\<forall>l<j. generateCodename (random l) \<in> name ` set (gadgets s)"
      by (simp add: findOne_name_None)
    with j(1) have "\<exists>j. name gadget = generateCodename (random j) \<and>
           (\<forall>l<j. generateCodename (random l) \<in> name ` set (gadgets s))"
      by blast
    moreover from j(2) have "name gadget \<notin> name ` set (gadgets s)"
      by (simp add: findOne_name_None)
    ultimately show ?thesis using cr(2,3,4,7) by simp
  qed
  have 2: "distinct (map name created) \<and> name ` set created \<inter> name ` set (gadgets s) = {}"
    if "sequential_creates reqs s = Some (created, s'')"
    using sequential_creates_distinct[OF that] .
  have 3: "Create body uuid now random s
        = Some (Inr \<lparr>gadget_id = u, name = generateCodename (random j), status = Available,
                      decommissionedAt = None, createdAt = now, updatedAt = now\<rparr>,
                s\<lparr>gadgets := gadgets s @
                    [\<lparr>gadget_id = u, name = generateCodename (random j), status = Available,
                      decommissionedAt = None, createdAt = now, updatedAt = now\<rparr>]\<rparr>)"
    if "generateCodename (random j) \<notin> name ` set (gadgets s)"
      "\<forall>l<j. generateCodename (random l) \<in> name ` set (gadgets s)"
      "uuid_in uuid = Some u" "u \<notin> gadget_id ` set (gadgets s)"
    using that by (rule Create_first_free)
  have 4: "Create body uuid now random s = None"
    if "\<forall>j. generateCodename (random j) \<in> name ` set (gadgets s)"
    using that by (rule Create_never_answers)
  have 5: "\<exists>noun \<in> set nouns. generateCodename r = ''The '' @ noun" if "random_ok r"
    using that by (rule generateCodename_form)
  show ?thesis
  proof (intro conjI)
    show "Create body uuid now random s = Create body' uuid now random s"
      by (rule Create_body_ignored)
  qed (intro impI, (elim conjE)?, rule 1 2 3 4 5, assumption+)+
qed

theorem Create_unique_codename_witness:
  "generateCodename draw_1_14 = ''The Kraken'' \<and>
   ''The Kraken'' \<in> name ` set (gadgets inventory) \<and>
   generateCodename draw_0 = ''The Nightingale'' \<and>
   ''The Nightingale'' \<notin> name ` set (gadgets inventory) \<and>
   uuid_in id4 = Some id4 \<and> id4 \<notin> gadget_id ` set (gadgets inventory) \<and>
   Create JNull id4 9000 (\<lambda>i. if i = 0 then draw_1_14 else draw_0) inventory
     = Some (Inr \<lparr>gadget_id = id4, name = ''The Nightingale'', status = Available,
                   decommissionedAt = None, createdAt = 9000, updatedAt = 9000\<rparr>,
             inventory\<lparr>gadgets := [kraken, viper, cipher,
                 \<lparr>gadget_id = id4, name = ''The Nightingale'', status = Available,
                   decommissionedAt = None, createdAt = 9000, updatedAt = 9000\<rparr>]\<rparr>) \<and>
   Create JNull id4 9000 (\<lambda>i. draw_1_14) inventory = None \<and>
   random_ok draw_1_14 \<and> (\<exists>noun \<in> set nouns. ''The Kraken'' = ''The '' @ noun) \<and>
   Create (JString ''The Kraken'') id4 9000 (\<lambda>i. if i = 0 then draw_1_14 else draw_0) inventory
     = Create JNull id4 9000 (\<lambda>i. if i = 0 then draw_1_14 else draw_0) inventory \<and>
   sequential_creates
       [(JNull, id4, 9000, \<lambda>i. if i = 0 then draw_1_14 else draw_0),
        (JNull, id5, 9500, \<lambda>i. if i = 0 then draw_0 else draw_3_14)] inventory
     = Some ([\<lparr>gadget_id = id4, name = ''The Nightingale'', status = Available,
                decommissionedAt = None, createdAt = 9000, updatedAt = 9000\<rparr>,
              \<lparr>gadget_id = id5, name = ''The Vortex'', status = Available,
                decommissionedAt = None, createdAt = 9500, updatedAt = 9500\<rparr>],
             inventory\<lparr>gadgets := [kraken, viper, cipher,
                \<lparr>gadget_id = id4, name = ''The Nightingale'', status = Available,
                  decommissionedAt = None, createdAt = 9000, updatedAt = 9000\<rparr>,
                \<lparr>gadget_id = id5, name = ''The Vortex'', status = Available,
                  decommissionedAt = None, createdAt = 9500, updatedAt = 9500\<rparr>]\<rparr>) \<and>
   distinct [''The Nightingale'', ''The Vortex'']"
proof -
  let ?R = "\<lambda>i::nat. if i = 0 then draw_1_14 else draw_0"
  let ?K = "\<lambda>i::nat. draw_1_14"
  let ?N = "\<lparr>gadget_id = id4, name = ''The Nightingale'', status = Available,
                   decommissionedAt = None, createdAt = 9000, updatedAt = 9000\<rparr>"
  let ?V = "\<lparr>gadget_id = id5, name = ''The Vortex'', status = Available,
                decommissionedAt = None, createdAt = 9500, updatedAt = 9500\<rparr>"
  let ?S2 = "inventory\<lparr>gadgets := [kraken, viper, cipher, ?N, ?V]\<rparr>"
  let ?reqs = "[(JNull, id4, 9000::int, ?R), (JNull, id5, 9500, \<lambda>i. if i = 0 then draw_0 else draw_3_14)]"
  have k: "generateCodename draw_1_14 = ''The Kraken''"
    "generateCodename draw_0 = ''The Nightingale''"
    by (rule generateCodename_draws)+
  have n: "''The Kraken'' \<in> name ` set (gadgets inventory)"
    "''The Nightingale'' \<notin> name ` set (gadgets inventory)"
    by (simp_all add: example_defs)
  have i: "uuid_in id4 = Some id4" "id4 \<notin> gadget_id ` set (gadgets inventory)"
    by (simp_all add: uuid_in_ids example_defs ids_distinct)
  have free: "generateCodename (?R 1) \<notin> name ` set (gadgets inventory)"
    and taken: "\<forall>l<1. generateCodename (?R l) \<in> name ` set (gadgets inventory)"
    and never: "\<forall>j. generateCodename (?K j) \<in> name ` set (gadgets inventory)"
    using k n by simp_all
  have r: "random_ok draw_1_14" by (rule draws_ok)
  have q: "sequential_creates ?reqs inventory = Some ([?N, ?V], ?S2)"
    by (simp add: create_defs)
  note t = Create_unique_codename[where body = JNull and uuid = id4 and u = id4 and now = 9000
      and random = ?R and s = inventory and j = 1 and r = draw_1_14
      and body' = "JString ''The Kraken''" and reqs = ?reqs and created = "[?N, ?V]"
      and s'' = ?S2]
  note t' = Create_unique_codename[where body = JNull and uuid = id4 and now = 9000
      and random = ?K and s = inventory]
  from t[THEN conjunct1, THEN mp, OF conjI[OF free conjI[OF taken conjI[OF i]]]]
  have 1: "Create JNull id4 9000 ?R inventory
     = Some (Inr \<lparr>gadget_id = id4, name = generateCodename (?R 1), status = Available,
                   decommissionedAt = None, createdAt = 9000, updatedAt = 9000\<rparr>,
             inventory\<lparr>gadgets := gadgets inventory @
                 [\<lparr>gadget_id = id4, name = generateCodename (?R 1), status = Available,
                   decommissionedAt = None, createdAt = 9000, updatedAt = 9000\<rparr>]\<rparr>)" .
  have 1: "Create JNull id4 9000 ?R inventory
      = Some (Inr ?N, inventory\<lparr>gadgets := [kraken, viper, cipher, ?N]\<rparr>)"
    unfolding 1 using k by (simp add: inventory_def)
  from t'[THEN conjunct2, THEN conjunct1, THEN mp, OF never]
  have 2: "Create JNull id4 9000 ?K inventory = None" .
  from t[THEN conjunct2, THEN conjunct2, THEN conjunct1, THEN mp, OF r]
  have "\<exists>noun \<in> set nouns. generateCodename draw_1_14 = ''The '' @ noun" .
  then have 3: "\<exists>noun \<in> set nouns. ''The Kraken'' = ''The '' @ noun" unfolding k .
  from t[THEN conjunct2, THEN conjunct2, THEN conjunct2, THEN conjunct2, THEN conjunct1]
  have 4: "Create (JString ''The Kraken'') id4 9000 ?R inventory
      = Create JNull id4 9000 ?R inventory"
    by (rule sym)
  from t[THEN conjunct2, THEN conjunct2, THEN conjunct2, THEN conjunct2, THEN conjunct2,
      THEN mp, OF q]
  have 5: "distinct (map name [?N, ?V])" by (rule conjunct1)
  then have 5: "distinct [''The Nightingale'', ''The Vortex'']" by simp
  show ?thesis by (intro conjI) (fact k n i r q 1 2 3 4 5)+
qed

section \<open>Register and Login\<close>

lemma User_findOne_append:
  "\<forall>u \<in> set users. username u \<noteq> uname \<Longrightarrow> username user = uname \<Longrightarrow>
     User_findOne (users @ user # later) uname = Some user"
  unfolding User_findOne_def by (induction users) auto

lemma Register_Inr:
  assumes "Register hash uid uname pw users = (Inr msg, users')"
  shows "\<forall>u \<in> set users. username u \<noteq> uname"
    "users' = users @ [\<lparr>user_id = uid, username = uname, password = hash pw\<rparr>]"
  using assms unfolding Register_def User_create_def Let_def
  by (auto split: if_splits)

text \<open>
  Claim C9. After a Register that succeeds, the row of the new user is appended to the
  table and is the one found under the username; its password is the hash of the
  supplied password, hence not the supplied string wherever the hash differs from its
  argument. A later Login under that username, also after further users \<open>later\<close> have
  been added, succeeds exactly when \<^verbatim>\<open>bcrypt.compare\<close> accepts the supplied password
  against that stored hash. (\<^verbatim>\<open>User.create\<close> is the model written from the spec above;
  Login is the route as the source has it.)
\<close>

theorem Register_stores_hash:
  "Register hash uid uname pw users = (Inr msg, users') \<longrightarrow>
     (\<exists>user. users' = users @ [user] \<and> User_findOne users' uname = Some user \<and>
             username user = uname \<and> password user = hash pw \<and>
             (hash pw \<noteq> pw \<longrightarrow> password user \<noteq> pw)) \<and>
     ((\<exists>tok. Login compare now uname pw' (users' @ later) = Inr tok)
        \<longleftrightarrow> compare pw' (hash pw))"
proof
  assume reg: "Register hash uid uname pw users = (Inr msg, users')"
  let ?user = "\<lparr>user_id = uid, username = uname, password = hash pw\<rparr>"
  note r = Register_Inr[OF reg]
  have found: "User_findOne (users' @ more) uname = Some ?user" for more
    unfolding r(2) using User_findOne_append[OF r(1), of ?user more] by simp
  then have "(\<exists>tok. Login compare now uname pw' (users' @ later) = Inr tok)
        \<longleftrightarrow> compare pw' (hash pw)"
    by (simp add: Login_def Let_def)
  moreover have "\<exists>user. users' = users @ [user] \<and> User_findOne users' uname = Some user \<and>
             username user = uname \<and> password user = hash pw \<and>
             (hash pw \<noteq> pw \<longrightarrow> password user \<noteq> pw)"
    using found[of "[]"] r(2) by (intro exI[of _ ?user]) simp
  ultimately show "(\<exists>user. users' = users @ [user] \<and> User_findOne users' uname = Some user \<and>
             username user = uname \<and> password user = hash pw \<and>
             (hash pw \<noteq> pw \<longrightarrow> password user \<noteq> pw)) \<and>
     ((\<exists>tok. Login compare now uname pw' (users' @ later) = Inr tok)
        \<longleftrightarrow> compare pw' (hash pw))"
    by simp
qed

theorem Register_stores_hash_witness:
  "Register (\<lambda>p. ''$2b$10$'' @ rev p) 1 ''agent007'' ''secret'' []
     = (Inr ''User created'',
        [\<lparr>user_id = 1, username = ''agent007'', password = ''$2b$10$terces''\<rparr>]) \<and>
   User_findOne [\<lparr>user_id = 1, username = ''agent007'', password = ''$2b$10$terces''\<rparr>] ''agent007''
     = Some \<lparr>user_id = 1, username = ''agent007'', password = ''$2b$10$terces''\<rparr> \<and>
   ''$2b$10$terces'' \<noteq> ''secret'' \<and>
   Login (\<lambda>p h. h = ''$2b$10$'' @ rev p) 5000 ''agent007'' ''secret''
       [\<lparr>user_id = 1, username = ''agent007'', password = ''$2b$10$terces''\<rparr>,
        \<lparr>user_id = 2, username = ''q'', password = ''$2b$10$q''\<rparr>]
     = Inr \<lparr>token_id = 1, token_iat = 5, token_exp = 3605\<rparr> \<and>
   Login (\<lambda>p h. h = ''$2b$10$'' @ rev p) 5000 ''agent007'' ''Secret''
       [\<lparr>user_id = 1, username = ''agent007'', password = ''$2b$10$terces''\<rparr>,
        \<lparr>user_id = 2, username = ''q'', password = ''$2b$10$q''\<rparr>]
     = Inl Unauthenticated"
proof -
  let ?hash = "\<lambda>p. ''$2b$10$'' @ rev p"
  let ?compare = "\<lambda>p h. h = ''$2b$10$'' @ rev p"
  let ?users = "[\<lparr>user_id = 1, username = ''agent007'', password = ''$2b$10$terces''\<rparr>]"
  let ?later = "[\<lparr>user_id = 2, username = ''q'', password = ''$2b$10$q''\<rparr>]"
  have reg: "Register ?hash 1 ''agent007'' ''secret'' [] = (Inr ''User created'', ?users)"
    by (simp add: Register_def User_create_def Let_def)
  note t = Register_stores_hash[where hash = ?hash and uid = 1 and uname = "''agent007''"
      and pw = "''secret''" and users = "[]" and msg = "''User created''" and users' = ?users
      and compare = ?compare and now = 5000 and later = ?later]
  from t[where pw' = "''secret''"] reg
  have 1: "\<exists>tok. Login ?compare 5000 ''agent007'' ''secret'' (?users @ ?later) = Inr tok"
    by simp
  from t[where pw' = "''Secret''"] reg
  have 2: "\<not> (\<exists>tok. Login ?compare 5000 ''agent007'' ''Secret'' (?users @ ?later) = Inr tok)"
    by simp
  from t[where pw' = "''secret''"] reg
  have 3: "User_findOne ?users ''agent007''
     = Some \<lparr>user_id = 1, username = ''agent007'', password = ''$2b$10$terces''\<rparr>"
    by auto
  have 4: "Login ?compare 5000 ''agent007'' ''secret'' (?users @ ?later)
      = Inr \<lparr>token_id = 1, token_iat = 5, token_exp = 3605\<rparr>"
    using 1 by (simp add: Login_def User_findOne_def)
  have 5: "Login ?compare 5000 ''agent007'' ''Secret'' (?users @ ?later) = Inl Unauthenticated"
    using 2 by (simp add: Login_def User_findOne_def)
  from reg 3 4 5 show ?thesis by simp
qed

end
